theory Spec2Isabelle
  imports Main "HOL-Library.Multiset"
begin

section \<open>Organization accounts: hierarchy walk, sessions and the account fan-out\<close>

text \<open>
  A shallow embedding of \<^verbatim>\<open>c7n/resources/org.py\<close>. Python objects that the module
  mutates (the list of roots, the filter's configuration, the manager's memoized session,
  the thread-local session cache) are passed in and returned explicitly. The collaborators
  that live outside the module (the organizations client, the credential provider, the
  per-region operation, \<^verbatim>\<open>str.format\<close>, the order in which futures complete) are
  parameters of the definitions.
\<close>

subsection \<open>Exceptions and values\<close>

text \<open>
  The exception classes that the module distinguishes. \<^verbatim>\<open>except ClientError\<close> catches
  only the first; \<^verbatim>\<open>except Exception\<close> catches everything but the last two, which derive
  from \<^verbatim>\<open>BaseException\<close> directly.
\<close>

datatype exn =
    ClientError
  | KeyError
  | ValueError
  | IndexError
  | NotImplementedError
  | RuntimeError
  | KeyboardInterrupt
  | SystemExit

fun is_Exception :: "exn \<Rightarrow> bool" where
  "is_Exception KeyboardInterrupt = False"
| "is_Exception SystemExit = False"
| "is_Exception _ = True"

text \<open>The values a per-region operation may return; \<^verbatim>\<open>False\<close> is \<open>PyBool False\<close>.\<close>

datatype pyval = PyNone | PyBool bool | PyInt int | PyStr string

text \<open>An account as returned by the listing: the two keys this module reads.\<close>

record account =
  account_Id :: string
  account_Name :: string

subsection \<open>AccountHierarchy\<close>

datatype child_type = ACCOUNT | ORGANIZATIONAL_UNIT

text \<open>
  One page of \<^verbatim>\<open>list_children\<close>: the ids under its \<^verbatim>\<open>Children\<close> key, or \<open>None\<close> when the
  page has no such key. The client maps a parent id and a child type to the pages that
  the paginator yields.
\<close>

type_synonym page = "string list option"
type_synonym client = "string \<Rightarrow> child_type \<Rightarrow> page list"

text \<open>\<^verbatim>\<open>[f["Id"] for f in page.get("Children", [])]\<close>\<close>

definition page_ids :: "page \<Rightarrow> string list" where
  "page_ids p = (case p of None \<Rightarrow> [] | Some ids \<Rightarrow> ids)"

text \<open>
  \<^verbatim>\<open>get_accounts_for_ous\<close>: the union, over the given units, of the ids on every page of
  account-typed children.
\<close>

definition get_accounts_for_ous :: "client \<Rightarrow> string set \<Rightarrow> string set" where
  "get_accounts_for_ous c ous = (\<Union>o' \<in> ous. \<Union>p \<in> set (c o' ACCOUNT). set (page_ids p))"

text \<open>
  The \<^verbatim>\<open>for page in pager.paginate(...)\<close> loop of \<^verbatim>\<open>get_ous_for_roots\<close>: every page extends
  the list \<open>roots\<close> and updates the set \<open>folders\<close>.
\<close>

fun extend_pages :: "page list \<Rightarrow> string list \<times> string set \<Rightarrow> string list \<times> string set" where
  "extend_pages [] (roots, folders) = (roots, folders)"
| "extend_pages (p # ps) (roots, folders) =
     extend_pages ps (roots @ page_ids p, folders \<union> set (page_ids p))"

text \<open>
  The \<^verbatim>\<open>while roots\<close> loop. The state is the caller's list \<open>roots\<close>, which the loop pops from
  the front and extends at the back, and the set \<open>folders\<close>. The loop need not terminate,
  so \<open>None\<close> stands for a walk that never returns. The result carries the final content
  of the caller's list next to the returned set.
\<close>

partial_function (option) walk_roots ::
  "client \<Rightarrow> string list \<Rightarrow> string set \<Rightarrow> (string set \<times> string list) option" where
  "walk_roots c roots folders =
     (case roots of
        [] \<Rightarrow> Some (folders, [])
      | r # rest \<Rightarrow>
          (case extend_pages (c r ORGANIZATIONAL_UNIT) (rest, folders) of
             (roots', folders') \<Rightarrow> walk_roots c roots' folders'))"

definition get_ous_for_roots :: "client \<Rightarrow> string list \<Rightarrow> (string set \<times> string list) option" where
  "get_ous_for_roots c roots = walk_roots c roots (set roots)"

text \<open>
  The \<^verbatim>\<open>ou\<close> filter. Its configuration \<^verbatim>\<open>self.data\<close> may or may not have the key \<^verbatim>\<open>units\<close>;
  \<^verbatim>\<open>process\<close> hands the configured list itself to \<^verbatim>\<open>get_ous_for_roots\<close>, so the filter
  that \<^verbatim>\<open>process\<close> returns holds whatever the walk left in that list.
\<close>

record ou_filter =
  units :: "string list option"

definition process ::
  "client \<Rightarrow> ou_filter \<Rightarrow> account list \<Rightarrow> ((exn + account list) \<times> ou_filter) option" where
  "process c f resources =
     (case units f of
        None \<Rightarrow> Some (Inl KeyError, f)
      | Some roots \<Rightarrow>
          (case get_ous_for_roots c roots of
             None \<Rightarrow> None
           | Some (ous, roots') \<Rightarrow>
               Some (Inr (filter (\<lambda>r. account_Id r \<in> get_accounts_for_ous c ous) resources),
                     f\<lparr>units := Some roots'\<rparr>)))"

text \<open>
  The parent-child relation among organizational units that a client presents: \<open>(p, k)\<close>
  when \<open>k\<close> is listed on some page of unit-typed children of \<open>p\<close>.
\<close>

definition ou_children :: "client \<Rightarrow> string \<Rightarrow> string list" where
  "ou_children c p = concat (map page_ids (c p ORGANIZATIONAL_UNIT))"

definition ou_edges :: "client \<Rightarrow> (string \<times> string) set" where
  "ou_edges c = {(p, k). k \<in> set (ou_children c p)}"

text \<open>
  A client for tests, built from a table that lists every parent with its typed children;
  it answers each request with a single page.
\<close>

definition table_client :: "(string \<times> (string \<times> child_type) list) list \<Rightarrow> client" where
  "table_client t p ty =
     (case map_of t p of
        None \<Rightarrow> [None]
      | Some kids \<Rightarrow> [Some (map fst (filter (\<lambda>k. snd k = ty) kids))])"

subsection \<open>Sessions and the credential provider\<close>

text \<open>
  A session handle. Python compares handles by object identity, so every handle carries a
  number that tells objects apart; an assumed session also records the request that
  produced it.
\<close>

datatype session =
    LocalSession (ident: nat) (region_name: string)
  | AssumedSession (ident: nat) (role_arn: string) (session_name: string)
      (region_name: string) (parent: session)

record assume_request =
  req_role_arn :: string
  req_session_name :: string
  req_session :: session
  req_region :: string

text \<open>The record that \<^verbatim>\<open>process_account_set\<close> writes with \<^verbatim>\<open>log.error\<close>.\<close>

datatype log_record =
    RoleAssumeError string string string
  | AccountError string string exn

text \<open>
  What the module reads and writes outside its own objects: the process environment, the
  session that \<^verbatim>\<open>local_session(self.session_factory)\<close> yields, the assumption requests
  sent to the credential provider so far, the calling thread's
  \<^verbatim>\<open>ACCOUNT_SESSION.org_accounts\<close>, and the error records logged by the calling thread.
\<close>

record world =
  environ :: "string \<rightharpoonup> string"
  local_session :: session
  requests :: "assume_request list"
  org_accounts :: "string \<rightharpoonup> session"
  error_log :: "log_record list"

definition ORG_ACCOUNT_SESSION_NAME :: string where
  "ORG_ACCOUNT_SESSION_NAME = ''CustodianOrgAccount''"

text \<open>
  Modelled from the spec: \<^verbatim>\<open>c7n.credentials.assumed_session\<close> is imported by the module but
  is not among the sources. The spec gives the credential provider as
  \<^verbatim>\<open>assumeIdentity(roleIdentifier, sessionLabel, region, parentHandle) -> handle\<close>, which
  may reject the assumption. The provider's decision is the parameter \<open>sts\<close>; every call
  is one request to the provider, and an accepted request yields a new handle.
\<close>

type_synonym provider = "assume_request \<Rightarrow> exn option"

definition assumed_session ::
  "provider \<Rightarrow> string \<Rightarrow> string \<Rightarrow> session \<Rightarrow> string \<Rightarrow> world \<Rightarrow> (exn + session) \<times> world" where
  "assumed_session sts role name sess region w =
     (let rq = \<lparr>req_role_arn = role, req_session_name = name, req_session = sess,
                req_region = region\<rparr>;
          w' = w\<lparr>requests := requests w @ [rq]\<rparr>
      in case sts rq of
           Some e \<Rightarrow> (Inl e, w')
         | None \<Rightarrow> (Inr (AssumedSession (length (requests w)) role name region sess), w'))"

text \<open>Truth value of a string, and of the result of \<^verbatim>\<open>dict.get\<close> on string values.\<close>

definition truthy :: "string option \<Rightarrow> bool" where
  "truthy v = (case v of None \<Rightarrow> False | Some s \<Rightarrow> s \<noteq> [])"

subsection \<open>OrgAccess and OrgAccount\<close>

text \<open>
  The resource manager: the \<^verbatim>\<open>query\<close> and \<^verbatim>\<open>mode\<close> entries of its \<^verbatim>\<open>data\<close> (either may be
  missing), the region of its session factory, the attribute \<^verbatim>\<open>org_session\<close> and the
  \<^verbatim>\<open>account_config\<close> dictionary.
\<close>

record manager =
  query :: "(string \<rightharpoonup> string) list option"
  mode :: "(string \<rightharpoonup> string) option"
  factory_region :: string
  org_session :: "session option"
  account_config :: "string \<rightharpoonup> string"

text \<open>The loop \<^verbatim>\<open>for q in self.data.get("query", ()): params.update(q)\<close>.\<close>

definition query_params :: "manager \<Rightarrow> (string \<rightharpoonup> string)" where
  "query_params mgr =
     fold (\<lambda>q params. params ++ q) (case query mgr of None \<Rightarrow> [] | Some qs \<Rightarrow> qs) Map.empty"

definition parse_access_role :: "manager \<Rightarrow> string option" where
  "parse_access_role mgr = query_params mgr ''org-access-role''"

text \<open>
  The test \<^verbatim>\<open>"LAMBDA_TASK_ROOT" in os.environ and self.data.get("mode", {}).get("member-role")\<close>.
\<close>

definition lambda_member_role :: "manager \<Rightarrow> world \<Rightarrow> bool" where
  "lambda_member_role mgr w =
     (''LAMBDA_TASK_ROOT'' \<in> dom (environ w) \<and>
      truthy (case mode mgr of None \<Rightarrow> None | Some m \<Rightarrow> m ''member-role''))"

definition get_org_session ::
  "provider \<Rightarrow> manager \<Rightarrow> world \<Rightarrow> (exn + session) \<times> manager \<times> world" where
  "get_org_session sts mgr w =
     (case org_session mgr of
        Some s \<Rightarrow> (Inr s, mgr, w)
      | None \<Rightarrow>
          (let org_access_role = parse_access_role mgr in
           if truthy org_access_role \<and> \<not> lambda_member_role mgr w
           then (case assumed_session sts (case org_access_role of None \<Rightarrow> [] | Some r \<Rightarrow> r)
                        ORG_ACCOUNT_SESSION_NAME (local_session w) (factory_region mgr) w of
                   (Inl e, w') \<Rightarrow> (Inl e, mgr, w')
                 | (Inr s, w') \<Rightarrow> (Inr s, mgr\<lparr>org_session := Some s\<rparr>, w'))
           else (Inr (local_session w), mgr\<lparr>org_session := Some (local_session w)\<rparr>, w)))"

text \<open>\<^verbatim>\<open>OrgAccount.parse_query\<close>, which sets \<^verbatim>\<open>account_config\<close>.\<close>

definition parse_query :: "manager \<Rightarrow> world \<Rightarrow> manager" where
  "parse_query mgr w =
     (let cfg = query_params mgr |` {''org-access-role'', ''org-account-role''};
          cfg' =
            (if ''org-account-role'' \<notin> dom cfg
             then (let d = cfg(''org-account-role'' \<mapsto> ''OrganizationAccountAccessRole'')
                   in if truthy (environ w ''AWS_CONTROL_TOWER_ORG'')
                      then d(''org-account-role'' \<mapsto> ''AWSControlTowerExecution'')
                      else d)
             else cfg)
      in mgr\<lparr>account_config := cfg'\<rparr>)"

subsection \<open>account\_session\<close>

definition startswith :: "string \<Rightarrow> string \<Rightarrow> bool" where
  "startswith s p = (take (length p) s = p)"

text \<open>
  Lines 331 to 334: the role identifier. \<open>fmt template v\<close> stands for Python's
  \<^verbatim>\<open>template.format(org_account_id=v)\<close>, which may raise.
\<close>

type_synonym formatter = "string \<Rightarrow> string \<Rightarrow> exn + string"

definition resolve_role :: "formatter \<Rightarrow> string \<Rightarrow> account \<Rightarrow> exn + string" where
  "resolve_role fmt role account =
     (if startswith role ''arn'' then fmt role (account_Id account)
      else Inr (''arn:aws:iam::'' @ account_Id account @ '':role/'' @ role))"

definition account_session ::
  "provider \<Rightarrow> formatter \<Rightarrow> session \<Rightarrow> account \<Rightarrow> string \<Rightarrow> world \<Rightarrow> (exn + session) \<times> world" where
  "account_session sts fmt org account role w =
     (case resolve_role fmt role account of
        Inl e \<Rightarrow> (Inl e, w)
      | Inr role' \<Rightarrow>
          (case org_accounts w role' of
             Some s \<Rightarrow> (Inr s, w)
           | None \<Rightarrow>
               (case assumed_session sts role' ORG_ACCOUNT_SESSION_NAME org (region_name org) w of
                  (Inl e, w') \<Rightarrow> (Inl e, w')
                | (Inr s, w') \<Rightarrow> (Inr s, w'\<lparr>org_accounts := (org_accounts w')(role' \<mapsto> s)\<rparr>))))"

text \<open>
  \<^verbatim>\<open>str.format\<close> with the single keyword argument \<^verbatim>\<open>org_account_id\<close>, for templates whose
  replacement fields are plain names: doubled braces are escapes, the field
  \<^verbatim>\<open>{org_account_id}\<close> is replaced by the value, another name raises \<^verbatim>\<open>KeyError\<close>, an empty
  or numeric name raises \<^verbatim>\<open>IndexError\<close> (there are no positional arguments) unless the
  number exceeds the largest index of a 64-bit build, which raises \<^verbatim>\<open>ValueError\<close>, and a
  single brace raises \<^verbatim>\<open>ValueError\<close>. Fields with a conversion (\<^verbatim>\<open>!\<close>), a format
  specification (\<^verbatim>\<open>:\<close>), an attribute (\<^verbatim>\<open>.\<close>) or an index (\<^verbatim>\<open>[\<close>) are not covered: the
  function answers \<^verbatim>\<open>ValueError\<close> for them, which need not be what Python does. The
  definitions of the module take the formatter as a parameter; this one serves the
  examples, on templates it covers.
\<close>

definition plain_field :: "string \<Rightarrow> string \<Rightarrow> exn + string" where
  "plain_field name v =
     (if list_ex (\<lambda>x. x \<in> set ''{!:.['') name then Inl ValueError
      else if list_all (\<lambda>x. x \<in> set ''0123456789'') name
      then (if foldl (\<lambda>n x. 10 * n + (of_char x - 48)) (0 :: int) name > 9223372036854775807
            then Inl ValueError else Inl IndexError)
      else if name = ''org_account_id'' then Inr v
      else Inl KeyError)"

function plain_format :: formatter where
  "plain_format [] v = Inr []"
| "plain_format (c # cs) v =
     (if c = CHR ''{'' then
        (case cs of
           [] \<Rightarrow> Inl ValueError
         | d # ds \<Rightarrow>
             if d = CHR ''{'' then map_sum id ((#) CHR ''{'') (plain_format ds v)
             else if dropWhile (\<lambda>x. x \<noteq> CHR ''}'') cs = [] then Inl ValueError
             else (case plain_field (takeWhile (\<lambda>x. x \<noteq> CHR ''}'') cs) v of
                     Inl e \<Rightarrow> Inl e
                   | Inr text \<Rightarrow>
                       map_sum id ((@) text)
                         (plain_format (tl (dropWhile (\<lambda>x. x \<noteq> CHR ''}'') cs)) v)))
      else if c = CHR ''}'' then
        (case cs of
           [] \<Rightarrow> Inl ValueError
         | d # ds \<Rightarrow>
             if d = CHR ''}'' then map_sum id ((#) CHR ''}'') (plain_format ds v)
             else Inl ValueError)
      else map_sum id ((#) c) (plain_format cs v))"
  by pat_completeness auto
termination
proof (relation "measure (\<lambda>(t, v). length t)", goal_cases)
  case (3 c cs v d ds)
  have "length (dropWhile (\<lambda>x. x \<noteq> CHR ''}'') cs) \<le> length cs"
    by (rule length_dropWhile_le)
  then show ?case
    by simp
qed simp_all

subsection \<open>ProcessAccountSet\<close>

text \<open>A filter that mixes in \<^verbatim>\<open>ProcessAccountSet\<close>: the \<^verbatim>\<open>regions\<close> entry of its \<^verbatim>\<open>data\<close>.\<close>

record account_filter =
  regions :: "string list option"

definition resolve_regions :: "account_filter \<Rightarrow> account \<Rightarrow> session \<Rightarrow> string list" where
  "resolve_regions flt account s = (case regions flt of None \<Rightarrow> [''us-east-1''] | Some rs \<Rightarrow> rs)"

text \<open>
  \<^verbatim>\<open>process_account_region\<close> is supplied by the subclass; it returns a value or raises.
\<close>

type_synonym region_op = "account \<Rightarrow> string \<Rightarrow> session \<Rightarrow> exn + pyval"
type_synonym region_results = "string \<rightharpoonup> pyval"

text \<open>
  The loop of \<^verbatim>\<open>process_account\<close>. \<^verbatim>\<open>except Exception\<close> turns a raised exception into the
  entry \<^verbatim>\<open>False\<close>; what is not an \<^verbatim>\<open>Exception\<close> leaves the loop and the function.
\<close>

fun process_regions ::
  "region_op \<Rightarrow> account \<Rightarrow> session \<Rightarrow> string list \<Rightarrow> region_results \<Rightarrow> exn + region_results" where
  "process_regions op account s [] region_results = Inr region_results"
| "process_regions op account s (r # rs) region_results =
     (case op account r s of
        Inr v \<Rightarrow> process_regions op account s rs (region_results(r \<mapsto> v))
      | Inl e \<Rightarrow>
          if is_Exception e
          then process_regions op account s rs (region_results(r \<mapsto> PyBool False))
          else Inl e)"

definition process_account ::
  "account_filter \<Rightarrow> region_op \<Rightarrow> account \<Rightarrow> session \<Rightarrow> exn + region_results" where
  "process_account flt op account s =
     process_regions op account s (resolve_regions flt account s) Map.empty"

text \<open>
  A future, once done: the account it was submitted for and the outcome of its task, which
  is the value that \<^verbatim>\<open>process_account\<close> returned or the exception that left it.
\<close>

type_synonym future = "account \<times> (exn + region_results)"
type_synonym account_results = "string \<rightharpoonup> region_results"

text \<open>The first loop of \<^verbatim>\<open>process_account_set\<close>: one task per account whose session resolves.\<close>

fun submit_accounts ::
  "provider \<Rightarrow> formatter \<Rightarrow> region_op \<Rightarrow> account_filter \<Rightarrow> manager \<Rightarrow> session \<Rightarrow>
     account list \<Rightarrow> future list \<Rightarrow> world \<Rightarrow> (exn + future list) \<times> world" where
  "submit_accounts sts fmt op flt mgr org [] futures w = (Inr futures, w)"
| "submit_accounts sts fmt op flt mgr org (a # as) futures w =
     (case account_config mgr ''org-account-role'' of
        None \<Rightarrow> (Inl KeyError, w)
      | Some role \<Rightarrow>
          (case account_session sts fmt org a role w of
             (Inl e, w') \<Rightarrow>
               if e = ClientError
               then submit_accounts sts fmt op flt mgr org as futures
                      (w'\<lparr>error_log := error_log w' @
                           [RoleAssumeError (account_Name a) (account_Id a) role]\<rparr>)
               else (Inl e, w')
           | (Inr s, w') \<Rightarrow>
               submit_accounts sts fmt op flt mgr org as
                 (futures @ [(a, process_account flt op a s)]) w'))"

text \<open>The second loop: the futures in the order in which they complete.\<close>

fun gather ::
  "future list \<Rightarrow> account_results \<times> log_record list \<Rightarrow> account_results \<times> log_record list" where
  "gather [] st = st"
| "gather ((a, Inl e) # fs) (account_results, log) =
     gather fs (account_results, log @ [AccountError (account_Name a) (account_Id a) e])"
| "gather ((a, Inr region_results) # fs) (account_results, log) =
     gather fs (account_results(account_Id a \<mapsto> region_results), log)"

text \<open>
  \<^verbatim>\<open>process_account_set\<close>. The executor is taken to behave as those of
  \<^verbatim>\<open>concurrent.futures\<close> do: \<^verbatim>\<open>submit\<close> never raises, and whatever leaves a task is kept on
  its future. \<open>as_completed\<close> is the order in which the futures complete: it maps the
  submitted futures to the sequence in which the second loop sees them.
\<close>

definition process_account_set ::
  "provider \<Rightarrow> formatter \<Rightarrow> region_op \<Rightarrow> (future list \<Rightarrow> future list) \<Rightarrow> account_filter \<Rightarrow>
     manager \<Rightarrow> account list \<Rightarrow> world \<Rightarrow> (exn + account_results) \<times> manager \<times> world" where
  "process_account_set sts fmt op as_completed flt mgr resources w =
     (case get_org_session sts mgr w of
        (Inl e, mgr', w1) \<Rightarrow> (Inl e, mgr', w1)
      | (Inr org, mgr', w1) \<Rightarrow>
          (case submit_accounts sts fmt op flt mgr' org resources [] w1 of
             (Inl e, w2) \<Rightarrow> (Inl e, mgr', w2)
           | (Inr futures, w2) \<Rightarrow>
               (case gather (as_completed futures) (Map.empty, error_log w2) of
                  (account_results, log) \<Rightarrow>
                    (Inr account_results, mgr', w2\<lparr>error_log := log\<rparr>))))"

subsection \<open>Notions used in the statements\<close>

text \<open>
  The region map the spec asks of a target whose identity resolved: for every configured
  region either the value the operation returned or the failure marker \<^verbatim>\<open>False\<close>, and
  nothing for any other region.
\<close>

definition unit_results :: "region_op \<Rightarrow> account \<Rightarrow> session \<Rightarrow> string list \<Rightarrow> region_results" where
  "unit_results op a s rs =
     (\<lambda>r. if r \<in> set rs then Some (case op a r s of Inl e \<Rightarrow> PyBool False | Inr v \<Rightarrow> v)
          else None)"

text \<open>The request that \<^verbatim>\<open>account_session\<close> sends for a role identifier (lines 340 to 345).\<close>

definition account_request :: "session \<Rightarrow> string \<Rightarrow> assume_request" where
  "account_request org arn =
     \<lparr>req_role_arn = arn, req_session_name = ORG_ACCOUNT_SESSION_NAME, req_session = org,
      req_region = region_name org\<rparr>"

subsection \<open>Example organizations, accounts and collaborators\<close>

text \<open>
  The organization of the spec's example: root \<open>R\<close> has the unit \<open>A\<close> and the account \<open>B\<close>
  as children, \<open>A\<close> has the unit \<open>C\<close>, and \<open>C\<close> has the account \<open>X\<close>.
\<close>

definition example_org :: "(string \<times> (string \<times> child_type) list) list" where
  "example_org =
     [(''R'', [(''A'', ORGANIZATIONAL_UNIT), (''B'', ACCOUNT)]),
      (''A'', [(''C'', ORGANIZATIONAL_UNIT)]),
      (''C'', [(''X'', ACCOUNT)])]"

text \<open>A hierarchy in which the unit \<open>C\<close> is discovered twice, below \<open>A\<close> and below \<open>D\<close>.\<close>

definition example_diamond :: "(string \<times> (string \<times> child_type) list) list" where
  "example_diamond =
     [(''R'', [(''A'', ORGANIZATIONAL_UNIT), (''D'', ORGANIZATIONAL_UNIT)]),
      (''A'', [(''C'', ORGANIZATIONAL_UNIT)]),
      (''D'', [(''C'', ORGANIZATIONAL_UNIT)])]"

text \<open>An \<^verbatim>\<open>ou\<close> filter configured with the root \<open>R\<close>, and three accounts to filter.\<close>

definition example_filter :: ou_filter where
  "example_filter = \<lparr>units = Some [''R'']\<rparr>"

definition example_accounts :: "account list" where
  "example_accounts =
     [\<lparr>account_Id = ''B'', account_Name = ''billing''\<rparr>,
      \<lparr>account_Id = ''Z'', account_Name = ''sandbox''\<rparr>,
      \<lparr>account_Id = ''X'', account_Name = ''prod''\<rparr>]"

text \<open>
  A world in which nothing has happened yet, and a credential provider that refuses the
  default role in account \<open>111111111111\<close> and accepts every other request.
\<close>

definition example_world :: world where
  "example_world =
     \<lparr>environ = Map.empty, local_session = LocalSession 0 ''us-east-1'', requests = [],
      org_accounts = Map.empty, error_log = []\<rparr>"

definition example_provider :: provider where
  "example_provider rq =
     (if req_role_arn rq = ''arn:aws:iam::111111111111:role/OrganizationAccountAccessRole''
      then Some ClientError else None)"

text \<open>The accounts of the batch examples; the provider refuses \<open>T1\<close>.\<close>

definition T1 :: account where
  "T1 = \<lparr>account_Id = ''111111111111'', account_Name = ''suspended''\<rparr>"

definition T2 :: account where
  "T2 = \<lparr>account_Id = ''222222222222'', account_Name = ''workloads''\<rparr>"

text \<open>
  The local session of the example world, and a manager whose query names an
  \<^verbatim>\<open>org-access-role\<close>; \<^verbatim>\<open>parse_query\<close> gives it the default \<^verbatim>\<open>org-account-role\<close>.
\<close>

definition example_local :: session where
  "example_local = LocalSession 0 ''us-east-1''"

definition example_manager :: manager where
  "example_manager =
     parse_query
       \<lparr>query = Some [[''org-access-role'' \<mapsto> ''arn:aws:iam::999999999999:role/OrgAccess'']],
        mode = None, factory_region = ''us-east-1'', org_session = None,
        account_config = Map.empty\<rparr> example_world"

text \<open>A provider that refuses every request.\<close>

definition deny_all :: provider where
  "deny_all rq = Some ClientError"

text \<open>
  An operation that raises \<^verbatim>\<open>RuntimeError\<close> in the region \<open>east\<close>; elsewhere it returns a
  value, except that for the account named \<open>broken\<close> it raises \<^verbatim>\<open>KeyboardInterrupt\<close>, which
  is not an \<^verbatim>\<open>Exception\<close>. The filter is configured with the regions \<open>east\<close> and \<open>west\<close>.
\<close>

definition example_op :: region_op where
  "example_op a r s =
     (if r = ''east'' then Inl RuntimeError
      else if account_Name a = ''broken'' then Inl KeyboardInterrupt
      else Inr (PyStr ''ok''))"

definition example_regions :: account_filter where
  "example_regions = \<lparr>regions = Some [''east'', ''west'']\<rparr>"

definition T3 :: account where
  "T3 = \<lparr>account_Id = ''333333333333'', account_Name = ''broken''\<rparr>"

text \<open>
  The handles and the final worlds of the two example batches: \<open>[T1, T2]\<close>, where \<open>T1\<close> is
  refused, and \<open>[T3, T2]\<close>, where the task of \<open>T3\<close> ends with the exception.
\<close>

definition example_org_handle :: session where
  "example_org_handle =
     AssumedSession 0 ''arn:aws:iam::999999999999:role/OrgAccess'' ''CustodianOrgAccount''
       ''us-east-1'' example_local"

definition handle_T2 :: session where
  "handle_T2 =
     AssumedSession 2 ''arn:aws:iam::222222222222:role/OrganizationAccountAccessRole''
       ''CustodianOrgAccount'' ''us-east-1'' example_org_handle"

definition example_world_after :: world where
  "example_world_after =
    \<lparr>environ = Map.empty, local_session = example_local,
     requests =
        [account_request example_local ''arn:aws:iam::999999999999:role/OrgAccess'',
         account_request example_org_handle
           ''arn:aws:iam::111111111111:role/OrganizationAccountAccessRole'',
         account_request example_org_handle
           ''arn:aws:iam::222222222222:role/OrganizationAccountAccessRole''],
     org_accounts =
        [''arn:aws:iam::222222222222:role/OrganizationAccountAccessRole'' \<mapsto> handle_T2],
     error_log =
        [RoleAssumeError ''suspended'' ''111111111111'' ''OrganizationAccountAccessRole'']\<rparr>"

definition handle_T3 :: session where
  "handle_T3 =
     AssumedSession 1 ''arn:aws:iam::333333333333:role/OrganizationAccountAccessRole''
       ''CustodianOrgAccount'' ''us-east-1'' example_org_handle"

definition example_world_dropped :: world where
  "example_world_dropped =
    \<lparr>environ = Map.empty, local_session = example_local,
     requests =
        [account_request example_local ''arn:aws:iam::999999999999:role/OrgAccess'',
         account_request example_org_handle
           ''arn:aws:iam::333333333333:role/OrganizationAccountAccessRole'',
         account_request example_org_handle
           ''arn:aws:iam::222222222222:role/OrganizationAccountAccessRole''],
     org_accounts =
        [''arn:aws:iam::333333333333:role/OrganizationAccountAccessRole'' \<mapsto> handle_T3,
         ''arn:aws:iam::222222222222:role/OrganizationAccountAccessRole'' \<mapsto> handle_T2],
     error_log = [AccountError ''broken'' ''333333333333'' KeyboardInterrupt]\<rparr>"

section \<open>The hierarchy walk\<close>

subsection \<open>Facts about the walk\<close>

lemma extend_pages_eq:
  "extend_pages ps (roots, folders) =
     (roots @ concat (map page_ids ps), folders \<union> set (concat (map page_ids ps)))"
  by (induction ps arbitrary: roots folders) (auto simp: Un_assoc)

lemma walk_roots_Nil: "walk_roots c [] folders = Some (folders, [])"
  by (simp add: walk_roots.simps)

lemma walk_roots_Cons:
  "walk_roots c (r # rest) folders =
     walk_roots c (rest @ ou_children c r) (folders \<union> set (ou_children c r))"
  by (subst walk_roots.simps) (simp add: extend_pages_eq ou_children_def)

lemma mult1_step:
  "(mset (rest @ ou_children c r), mset (r # rest)) \<in> mult1 ((ou_edges c)\<inverse>)"
proof -
  have "mset (r # rest) = add_mset r (mset rest)"
    by simp
  moreover have "mset (rest @ ou_children c r) = mset rest + mset (ou_children c r)"
    by simp
  moreover have "\<forall>b. b \<in># mset (ou_children c r) \<longrightarrow> (b, r) \<in> (ou_edges c)\<inverse>"
    by (simp add: ou_edges_def)
  ultimately show ?thesis
    unfolding mult1_def by blast
qed

lemma trancl_image_step:
  "(ou_edges c)\<^sup>+ `` set (r # rest) =
     set (ou_children c r) \<union> (ou_edges c)\<^sup>+ `` set (rest @ ou_children c r)"
proof -
  have E: "ou_edges c `` {r} = set (ou_children c r)"
    by (auto simp: ou_edges_def)
  have "(ou_edges c)\<^sup>+ `` {r} = ou_edges c `` {r} \<union> (ou_edges c)\<^sup>+ `` (ou_edges c `` {r})"
    by (auto elim: converse_tranclE intro: trancl_into_trancl2)
  then show ?thesis
    unfolding E by auto
qed

text \<open>
  Total correctness of the loop when no unit has an infinite descending chain of children:
  each iteration replaces one unit of the frontier by its children, which is a step down
  in the multiset extension of the child relation.
\<close>

lemma walk_roots_total:
  assumes "wf ((ou_edges c)\<inverse>)"
  shows "walk_roots c roots folders = Some (folders \<union> (ou_edges c)\<^sup>+ `` set roots, [])"
proof -
  have "wf (inv_image (mult1 ((ou_edges c)\<inverse>)) mset)"
    using assms by (simp add: wf_mult1)
  then show ?thesis
  proof (induction roots arbitrary: folders rule: wf_induct_rule)
    case (less roots)
    show ?case
    proof (cases roots)
      case Nil
      then show ?thesis by (simp add: walk_roots_Nil)
    next
      case (Cons r rest)
      have "(rest @ ou_children c r, roots) \<in> inv_image (mult1 ((ou_edges c)\<inverse>)) mset"
        unfolding Cons in_inv_image by (rule mult1_step)
      from less.IH[OF this]
      show ?thesis
        unfolding Cons walk_roots_Cons trancl_image_step by (simp add: Un_assoc)
    qed
  qed
qed

text \<open>Whenever the loop returns, it returns with the list exhausted.\<close>

lemma walk_roots_exhausts:
  assumes "walk_roots c roots folders = Some y"
  shows "snd y = []"
proof (rule walk_roots.raw_induct[where P = "\<lambda>c roots folders y. snd y = []", OF _ assms], goal_cases)
  case (1 walk c roots folders y)
  then show ?case
    by (auto split: list.splits prod.splits)
qed

lemma hierarchy_wf:
  assumes "finite (ou_edges c)" and "acyclic (ou_edges c)"
  shows "wf ((ou_edges c)\<inverse>)"
  using assms by (rule finite_acyclic_wf_converse)

lemma ou_children_table:
  "ou_children (table_client t) p =
     (case map_of t p of
        None \<Rightarrow> []
      | Some kids \<Rightarrow> map fst (filter (\<lambda>k. snd k = ORGANIZATIONAL_UNIT) kids))"
  by (simp add: ou_children_def table_client_def page_ids_def split: option.splits)

subsection \<open>The example organizations\<close>

lemma example_org_children:
  "ou_children (table_client example_org) p =
     (if p = ''R'' then [''A''] else if p = ''A'' then [''C''] else [])"
  by (simp add: ou_children_table example_org_def)

lemma example_org_edges:
  "ou_edges (table_client example_org) = {(''R'', ''A''), (''A'', ''C'')}"
  by (auto simp: ou_edges_def example_org_children split: if_splits)

lemma example_org_finite: "finite (ou_edges (table_client example_org))"
  by (simp add: example_org_edges)

lemma example_org_acyclic: "acyclic (ou_edges (table_client example_org))"
  by (simp add: example_org_edges rtrancl_insert wf_acyclic)

lemma example_org_closure:
  "(ou_edges (table_client example_org))\<^sup>+ `` {''R''} = {''A'', ''C''}"
  by (auto simp: example_org_edges trancl_insert rtrancl_insert)

lemma example_org_accounts:
  "get_accounts_for_ous (table_client example_org) {''R'', ''A'', ''C''} = {''B'', ''X''}"
  by (auto simp: get_accounts_for_ous_def table_client_def example_org_def page_ids_def)

lemma example_org_walk:
  "get_ous_for_roots (table_client example_org) [''R''] = Some ({''R'', ''A'', ''C''}, [])"
  by (simp add: get_ous_for_roots_def walk_roots_Cons walk_roots_Nil example_org_children
      insert_commute)

lemma example_diamond_children:
  "ou_children (table_client example_diamond) p =
     (if p = ''R'' then [''A'', ''D''] else if p = ''A'' then [''C'']
      else if p = ''D'' then [''C''] else [])"
  by (simp add: ou_children_table example_diamond_def)

lemma example_diamond_edges:
  "ou_edges (table_client example_diamond) =
     {(''R'', ''A''), (''R'', ''D''), (''A'', ''C''), (''D'', ''C'')}"
  by (auto simp: ou_edges_def example_diamond_children split: if_splits)

lemma example_diamond_acyclic: "acyclic (ou_edges (table_client example_diamond))"
  by (simp add: example_diamond_edges rtrancl_insert wf_acyclic)

lemma example_process_first:
  "process (table_client example_org) example_filter example_accounts =
     Some (Inr [\<lparr>account_Id = ''B'', account_Name = ''billing''\<rparr>,
                \<lparr>account_Id = ''X'', account_Name = ''prod''\<rparr>], \<lparr>units = Some []\<rparr>)"
  by (simp add: process_def example_filter_def example_org_walk example_org_accounts
      example_accounts_def)

lemma process_emptied:
  "process c \<lparr>units = Some []\<rparr> resources = Some (Inr [], \<lparr>units = Some []\<rparr>)"
  by (simp add: process_def get_ous_for_roots_def walk_roots_Nil get_accounts_for_ous_def)

lemma process_leaves_empty:
  assumes "process c f resources = Some (Inr kept, f')"
  shows "f' = \<lparr>units = Some []\<rparr>"
proof -
  from assms obtain roots ous left where
    u: "units f = Some roots" and g: "get_ous_for_roots c roots = Some (ous, left)"
    and f': "f' = f\<lparr>units := Some left\<rparr>"
    by (auto simp: process_def split: option.splits prod.splits)
  from g have "left = []"
    using walk_roots_exhausts[of c roots "set roots" "(ous, left)"]
    by (simp add: get_ous_for_roots_def)
  with f' show ?thesis by simp
qed

subsection \<open>Group expansion\<close>

text \<open>
  C7. Over a finite, acyclic hierarchy \<^verbatim>\<open>get_ous_for_roots\<close> returns the given roots together
  with every unit reachable from a root through one or more unit-typed child listings.
  Account-typed children are never listed by the walk, so they enter the result only if
  they are roots or unit-typed children themselves. In the spec's example the result for
  the root \<open>R\<close> is \<open>{R, A, C}\<close>, although \<open>B\<close> is a child of \<open>R\<close>.
\<close>

theorem get_ous_for_roots_expansion:
  assumes "finite (ou_edges c)" and "acyclic (ou_edges c)"
  shows "map_option fst (get_ous_for_roots c roots) =
           Some (set roots \<union> (ou_edges c)\<^sup>+ `` set roots)"
  unfolding get_ous_for_roots_def
  by (simp add: walk_roots_total[OF hierarchy_wf[OF assms]])

theorem get_ous_for_roots_expansion_witness:
  "finite (ou_edges (table_client example_org)) \<and>
   acyclic (ou_edges (table_client example_org)) \<and>
   map_option fst (get_ous_for_roots (table_client example_org) [''R'']) =
     Some {''R'', ''A'', ''C''} \<and>
   ''B'' \<in> set (concat (map page_ids (table_client example_org ''R'' ACCOUNT)))"
proof -
  have "map_option fst (get_ous_for_roots (table_client example_org) [''R'']) =
          Some {''R'', ''A'', ''C''}"
    using get_ous_for_roots_expansion[OF example_org_finite example_org_acyclic, of "[''R'']"]
    by (simp add: example_org_closure insert_commute)
  moreover have "''B'' \<in> set (concat (map page_ids (table_client example_org ''R'' ACCOUNT)))"
    by (simp add: table_client_def example_org_def page_ids_def)
  ultimately show ?thesis
    using example_org_finite example_org_acyclic by simp
qed

subsection \<open>Termination of the expansion\<close>

text \<open>
  C10. Over a finite hierarchy whose parent-child relation is acyclic the frontier loop of
  \<^verbatim>\<open>get_ous_for_roots\<close> terminates, and it ends with the frontier empty.
\<close>

theorem get_ous_for_roots_terminates:
  assumes "finite (ou_edges c)" and "acyclic (ou_edges c)"
  shows "\<exists>folders. get_ous_for_roots c roots = Some (folders, [])"
  unfolding get_ous_for_roots_def
  by (simp add: walk_roots_total[OF hierarchy_wf[OF assms]])

theorem get_ous_for_roots_terminates_witness:
  "finite (ou_edges (table_client example_diamond)) \<and>
   acyclic (ou_edges (table_client example_diamond)) \<and>
   (\<exists>folders. get_ous_for_roots (table_client example_diamond) [''R'', ''D''] =
      Some (folders, []))"
proof -
  have fin: "finite (ou_edges (table_client example_diamond))"
    by (simp add: example_diamond_edges)
  show ?thesis
    using fin example_diamond_acyclic
      get_ous_for_roots_terminates[OF fin example_diamond_acyclic, of "[''R'', ''D'']"]
    by simp
qed

subsection \<open>The walk consumes the list of its caller\<close>

text \<open>
  C9. \<^verbatim>\<open>get_ous_for_roots\<close> works on the caller's list: whenever it returns, that list is
  empty; each iteration pops the first element and appends the unit-typed children found
  for it. \<^verbatim>\<open>process\<close> passes the filter's configured \<^verbatim>\<open>units\<close> list itself, so after one
  run the filter is configured with no units, and a second run of the same filter walks
  from an empty root set and keeps no account.
\<close>

theorem get_ous_for_roots_consumes_roots:
  "(get_ous_for_roots c roots = Some (folders, left) \<longrightarrow> left = []) \<and>
   walk_roots c (r # rest) seen =
     walk_roots c (rest @ ou_children c r) (seen \<union> set (ou_children c r)) \<and>
   (process c f resources = Some (Inr kept, f') \<longrightarrow>
      units f' = Some [] \<and> process c f' again = Some (Inr [], f'))"
proof (intro conjI impI)
  assume "get_ous_for_roots c roots = Some (folders, left)"
  then show "left = []"
    using walk_roots_exhausts[of c roots "set roots" "(folders, left)"]
    by (simp add: get_ous_for_roots_def)
next
  show "walk_roots c (r # rest) seen =
     walk_roots c (rest @ ou_children c r) (seen \<union> set (ou_children c r))"
    by (rule walk_roots_Cons)
next
  assume p: "process c f resources = Some (Inr kept, f')"
  show "units f' = Some []"
    using process_leaves_empty[OF p] by simp
  show "process c f' again = Some (Inr [], f')"
    using process_leaves_empty[OF p] by (simp add: process_emptied)
qed

theorem get_ous_for_roots_consumes_roots_witness:
  "get_ous_for_roots (table_client example_org) [''R''] = Some ({''R'', ''A'', ''C''}, []) \<and>
   process (table_client example_org) example_filter example_accounts =
     Some (Inr [\<lparr>account_Id = ''B'', account_Name = ''billing''\<rparr>,
                \<lparr>account_Id = ''X'', account_Name = ''prod''\<rparr>], \<lparr>units = Some []\<rparr>) \<and>
   units \<lparr>units = Some []\<rparr> = Some [] \<and>
   process (table_client example_org) \<lparr>units = Some []\<rparr> example_accounts =
     Some (Inr [], \<lparr>units = Some []\<rparr>)"
proof -
  note p = example_process_first
  from get_ous_for_roots_consumes_roots[of "table_client example_org" "[''R'']"
      "{''R'', ''A'', ''C''}" "[]" "''R''" "[]" "{}" example_filter example_accounts
      "[\<lparr>account_Id = ''B'', account_Name = ''billing''\<rparr>,
        \<lparr>account_Id = ''X'', account_Name = ''prod''\<rparr>]" "\<lparr>units = Some []\<rparr>" example_accounts]
  show ?thesis
    using p example_org_walk by simp
qed

subsection \<open>Expanding twice through the same filter\<close>

text \<open>
  C8. Two runs of the same \<^verbatim>\<open>ou\<close> filter over the unchanged example organization: the first
  expands the configured root \<open>R\<close> to \<open>{R, A, C}\<close> and keeps the accounts \<open>B\<close> and \<open>X\<close>; the
  second run finds the configured list emptied by the first, expands it to the empty set
  and keeps nothing.
\<close>

theorem process_second_run_differs:
  "process (table_client example_org) example_filter example_accounts =
     Some (Inr [\<lparr>account_Id = ''B'', account_Name = ''billing''\<rparr>,
                \<lparr>account_Id = ''X'', account_Name = ''prod''\<rparr>], \<lparr>units = Some []\<rparr>) \<and>
   process (table_client example_org) \<lparr>units = Some []\<rparr> example_accounts =
     Some (Inr [], \<lparr>units = Some []\<rparr>) \<and>
   get_ous_for_roots (table_client example_org) [''R''] = Some ({''R'', ''A'', ''C''}, []) \<and>
   get_ous_for_roots (table_client example_org) [] = Some ({}, [])"
proof -
  have "get_ous_for_roots (table_client example_org) [] = Some ({}, [])"
    by (simp add: get_ous_for_roots_def walk_roots_Nil)
  then show ?thesis
    using example_process_first example_org_walk by (simp add: process_emptied)
qed

section \<open>Sessions\<close>

subsection \<open>Facts about the session cache\<close>

lemma account_session_result:
  assumes "account_session sts fmt org a role w = (Inr s, w')"
  shows "\<exists>arn. resolve_role fmt role a = Inr arn \<and> org_accounts w' arn = Some s \<and>
           (case org_accounts w arn of
              Some s' \<Rightarrow> w' = w
            | None \<Rightarrow>
                sts \<lparr>req_role_arn = arn, req_session_name = ORG_ACCOUNT_SESSION_NAME,
                      req_session = org, req_region = region_name org\<rparr> = None \<and>
                s = AssumedSession (length (requests w)) arn ORG_ACCOUNT_SESSION_NAME
                      (region_name org) org \<and>
                w' = w\<lparr>requests := requests w @
                          [\<lparr>req_role_arn = arn, req_session_name = ORG_ACCOUNT_SESSION_NAME,
                            req_session = org, req_region = region_name org\<rparr>],
                        org_accounts := (org_accounts w)(arn \<mapsto> s)\<rparr>)"
  using assms
  by (auto simp: account_session_def assumed_session_def Let_def
      split: sum.splits option.splits prod.splits)

lemma account_session_hit:
  assumes "resolve_role fmt role a = Inr arn" and "org_accounts w arn = Some s"
  shows "account_session sts fmt org a role w = (Inr s, w)"
  using assms by (simp add: account_session_def)

lemma example_manager_eq:
  "query example_manager = Some [[''org-access-role'' \<mapsto> ''arn:aws:iam::999999999999:role/OrgAccess'']] \<and>
   mode example_manager = None \<and> factory_region example_manager = ''us-east-1'' \<and>
   org_session example_manager = None \<and>
   account_config example_manager ''org-account-role'' = Some ''OrganizationAccountAccessRole''"
  by (simp add: example_manager_def parse_query_def Let_def query_params_def example_world_def truthy_def)

lemma example_access_role:
  "parse_access_role example_manager = Some ''arn:aws:iam::999999999999:role/OrgAccess''"
  by (simp add: parse_access_role_def query_params_def example_manager_eq)

subsection \<open>Role identifiers\<close>

text \<open>
  When \<^verbatim>\<open>account_session\<close> returns a handle, the handle is cached under the resolved role
  identifier, and on a cache miss that identifier is the role requested from the
  credential provider. The identifier is what \<^verbatim>\<open>role.format\<close> makes of the role, with the
  account id as \<^verbatim>\<open>org_account_id\<close>, when the role starts with \<^verbatim>\<open>arn\<close>, and
  \<^verbatim>\<open>arn:aws:iam::<id>:role/<role>\<close> otherwise. A role that cannot be formatted makes the call
  raise before any lookup.
\<close>

lemma account_session_identifier:
  "(account_session sts fmt org a role w = (Inr s, w') \<longrightarrow>
      (\<exists>arn. (if startswith role ''arn'' then fmt role (account_Id a) = Inr arn
              else arn = ''arn:aws'' @ '':iam::'' @ account_Id a @ '':role/'' @ role) \<and>
             org_accounts w' arn = Some s \<and>
             (org_accounts w arn = None \<longrightarrow>
                s = AssumedSession (length (requests w)) arn ORG_ACCOUNT_SESSION_NAME
                      (region_name org) org \<and>
                requests w' = requests w @
                  [\<lparr>req_role_arn = arn, req_session_name = ORG_ACCOUNT_SESSION_NAME,
                    req_session = org, req_region = region_name org\<rparr>]))) \<and>
   (startswith role ''arn'' \<and> fmt role (account_Id a) = Inl e \<longrightarrow>
      account_session sts fmt org a role w = (Inl e, w))"
proof (intro conjI impI)
  assume "account_session sts fmt org a role w = (Inr s, w')"
  from account_session_result[OF this] obtain arn where
    r: "resolve_role fmt role a = Inr arn" and c: "org_accounts w' arn = Some s"
    and k: "case org_accounts w arn of
              Some s' \<Rightarrow> w' = w
            | None \<Rightarrow>
                sts \<lparr>req_role_arn = arn, req_session_name = ORG_ACCOUNT_SESSION_NAME,
                      req_session = org, req_region = region_name org\<rparr> = None \<and>
                s = AssumedSession (length (requests w)) arn ORG_ACCOUNT_SESSION_NAME
                      (region_name org) org \<and>
                w' = w\<lparr>requests := requests w @
                          [\<lparr>req_role_arn = arn, req_session_name = ORG_ACCOUNT_SESSION_NAME,
                            req_session = org, req_region = region_name org\<rparr>],
                        org_accounts := (org_accounts w)(arn \<mapsto> s)\<rparr>"
    by blast
  from r have "if startswith role ''arn'' then fmt role (account_Id a) = Inr arn
              else arn = ''arn:aws'' @ '':iam::'' @ account_Id a @ '':role/'' @ role"
    by (auto simp: resolve_role_def split: if_splits)
  moreover from k have "org_accounts w arn = None \<longrightarrow>
                s = AssumedSession (length (requests w)) arn ORG_ACCOUNT_SESSION_NAME
                      (region_name org) org \<and>
                requests w' = requests w @
                  [\<lparr>req_role_arn = arn, req_session_name = ORG_ACCOUNT_SESSION_NAME,
                    req_session = org, req_region = region_name org\<rparr>]"
    by auto
  ultimately show "\<exists>arn. (if startswith role ''arn'' then fmt role (account_Id a) = Inr arn
              else arn = ''arn:aws'' @ '':iam::'' @ account_Id a @ '':role/'' @ role) \<and>
             org_accounts w' arn = Some s \<and>
             (org_accounts w arn = None \<longrightarrow>
                s = AssumedSession (length (requests w)) arn ORG_ACCOUNT_SESSION_NAME
                      (region_name org) org \<and>
                requests w' = requests w @
                  [\<lparr>req_role_arn = arn, req_session_name = ORG_ACCOUNT_SESSION_NAME,
                    req_session = org, req_region = region_name org\<rparr>])"
    using c by (intro exI[of _ arn] conjI)
next
  assume "startswith role ''arn'' \<and> fmt role (account_Id a) = Inl e"
  then show "account_session sts fmt org a role w = (Inl e, w)"
    by (simp add: account_session_def resolve_role_def)
qed

lemma example_template_identifier:
  "resolve_role plain_format ''arn:aws:iam::{org_account_id}:role/custodian'' T2 =
     Inr ''arn:aws:iam::222222222222:role/custodian''"
  "resolve_role plain_format ''OrganizationAccountAccessRole'' T2 =
     Inr ''arn:aws:iam::222222222222:role/OrganizationAccountAccessRole''"
  by (simp_all add: resolve_role_def startswith_def plain_field_def T2_def)

text \<open>
  C4. The role \<^verbatim>\<open>arnold\<close> is a bare role name, with no replacement field and no colon. It
  starts with the letters \<^verbatim>\<open>arn\<close>, so line 331 takes it for a template: it is formatted,
  which leaves it as it is, and the identifier that \<^verbatim>\<open>account_session\<close> requests from the
  provider and caches the handle under is \<^verbatim>\<open>arnold\<close> itself. Nothing is requested or
  cached for \<^verbatim>\<open>arn:aws:iam::222222222222:role/arnold\<close>, the identifier of that role in the
  account.
\<close>

theorem account_session_bare_name_taken_for_template:
  "startswith ''arnold'' ''arn'' \<and>
   resolve_role plain_format ''arnold'' T2 = Inr ''arnold'' \<and>
   account_session example_provider plain_format example_local T2 ''arnold'' example_world =
     (Inr (AssumedSession 0 ''arnold'' ''CustodianOrgAccount'' ''us-east-1'' example_local),
      example_world\<lparr>requests :=
          [\<lparr>req_role_arn = ''arnold'', req_session_name = ''CustodianOrgAccount'',
            req_session = example_local, req_region = ''us-east-1''\<rparr>],
        org_accounts :=
          [''arnold'' \<mapsto> AssumedSession 0 ''arnold'' ''CustodianOrgAccount'' ''us-east-1''
             example_local]\<rparr>) \<and>
   [''arnold'' \<mapsto> AssumedSession 0 ''arnold'' ''CustodianOrgAccount'' ''us-east-1''
      example_local] (''arn:aws'' @ '':iam::'' @ account_Id T2 @ '':role/'' @ ''arnold'') = None"
proof -
  have st: "startswith ''arnold'' ''arn''"
    by (simp add: startswith_def)
  have rr: "resolve_role plain_format ''arnold'' T2 = Inr ''arnold''"
    by (simp add: resolve_role_def st)
  have w: "requests example_world = []" "org_accounts example_world = Map.empty"
    by (simp_all add: example_world_def)
  have run: "account_session example_provider plain_format example_local T2 ''arnold''
      example_world =
     (Inr (AssumedSession 0 ''arnold'' ''CustodianOrgAccount'' ''us-east-1'' example_local),
      example_world\<lparr>requests :=
          [\<lparr>req_role_arn = ''arnold'', req_session_name = ''CustodianOrgAccount'',
            req_session = example_local, req_region = ''us-east-1''\<rparr>],
        org_accounts :=
          [''arnold'' \<mapsto> AssumedSession 0 ''arnold'' ''CustodianOrgAccount'' ''us-east-1''
             example_local]\<rparr>)"
    by (simp add: account_session_def rr assumed_session_def Let_def w example_provider_def
        ORG_ACCOUNT_SESSION_NAME_def example_local_def)
  have miss: "[''arnold'' \<mapsto> AssumedSession 0 ''arnold'' ''CustodianOrgAccount'' ''us-east-1''
      example_local] (''arn:aws'' @ '':iam::'' @ account_Id T2 @ '':role/'' @ ''arnold'') = None"
    by (simp add: T2_def)
  show ?thesis
    using st rr run miss by simp
qed

subsection \<open>Cache identity\<close>

text \<open>
  C5. After a call that returned a handle, any call that resolves to the same role
  identifier and finds the same cache returns that very handle and leaves the world as it
  is: no request reaches the credential provider, whatever the provider, the parent
  session, the account record or the role template of the second call.
\<close>

theorem account_session_cache_identity:
  assumes "account_session sts fmt org a role w = (Inr s, w1)"
    and "org_accounts w2 = org_accounts w1"
    and "resolve_role fmt2 role2 a2 = resolve_role fmt role a"
  shows "account_session sts2 fmt2 org2 a2 role2 w2 = (Inr s, w2)"
proof -
  from account_session_result[OF assms(1)] obtain arn where
    "resolve_role fmt role a = Inr arn" and "org_accounts w1 arn = Some s"
    by blast
  with assms(2,3) show ?thesis
    by (simp add: account_session_hit)
qed

theorem account_session_cache_identity_witness:
  "account_session example_provider plain_format example_local T2
     ''OrganizationAccountAccessRole'' example_world =
     (Inr (AssumedSession 0 ''arn:aws:iam::222222222222:role/OrganizationAccountAccessRole''
             ''CustodianOrgAccount'' ''us-east-1'' example_local),
      snd (account_session example_provider plain_format example_local T2
             ''OrganizationAccountAccessRole'' example_world)) \<and>
   resolve_role plain_format ''arn:aws:iam::{org_account_id}:role/OrganizationAccountAccessRole''
       \<lparr>account_Id = ''222222222222'', account_Name = ''renamed''\<rparr> =
     resolve_role plain_format ''OrganizationAccountAccessRole'' T2 \<and>
   account_session deny_all plain_format (LocalSession 7 ''eu-west-1'')
     \<lparr>account_Id = ''222222222222'', account_Name = ''renamed''\<rparr>
     ''arn:aws:iam::{org_account_id}:role/OrganizationAccountAccessRole''
     (snd (account_session example_provider plain_format example_local T2
             ''OrganizationAccountAccessRole'' example_world)) =
     (Inr (AssumedSession 0 ''arn:aws:iam::222222222222:role/OrganizationAccountAccessRole''
             ''CustodianOrgAccount'' ''us-east-1'' example_local),
      snd (account_session example_provider plain_format example_local T2
             ''OrganizationAccountAccessRole'' example_world))"
proof -
  let ?w1 = "snd (account_session example_provider plain_format example_local T2
             ''OrganizationAccountAccessRole'' example_world)"
  have h1: "account_session example_provider plain_format example_local T2
     ''OrganizationAccountAccessRole'' example_world =
     (Inr (AssumedSession 0 ''arn:aws:iam::222222222222:role/OrganizationAccountAccessRole''
             ''CustodianOrgAccount'' ''us-east-1'' example_local), ?w1)"
    by (simp add: account_session_def resolve_role_def startswith_def assumed_session_def Let_def
        T2_def example_world_def example_provider_def ORG_ACCOUNT_SESSION_NAME_def
        example_local_def)
  have h3: "resolve_role plain_format
       ''arn:aws:iam::{org_account_id}:role/OrganizationAccountAccessRole''
       \<lparr>account_Id = ''222222222222'', account_Name = ''renamed''\<rparr> =
     resolve_role plain_format ''OrganizationAccountAccessRole'' T2"
    by (simp add: resolve_role_def startswith_def plain_field_def T2_def)
  from account_session_cache_identity[OF h1 refl h3, of deny_all "LocalSession 7 ''eu-west-1''"]
  show ?thesis
    using h1 h3 by simp
qed

subsection \<open>The organization session\<close>

text \<open>
  C6. Once \<^verbatim>\<open>get_org_session\<close> has returned a handle, every later call on the same manager
  returns the same handle and touches nothing, whatever the provider and the world are by
  then. On a manager with no memoized session the handle is a session assumed from the
  local session for the configured \<^verbatim>\<open>org-access-role\<close> under the label
  \<^verbatim>\<open>CustodianOrgAccount\<close>, unless the role is missing or empty or the code runs in Lambda
  with a \<^verbatim>\<open>member-role\<close>; then it is the local session and no request is made.
\<close>

theorem get_org_session_memoized:
  assumes "get_org_session sts mgr w = (Inr s, mgr', w')"
  shows "get_org_session sts2 mgr' w2 = (Inr s, mgr', w2) \<and>
         (org_session mgr = None \<and> parse_access_role mgr = Some role \<and> role \<noteq> [] \<and>
          \<not> lambda_member_role mgr w \<longrightarrow>
            s = AssumedSession (length (requests w)) role ORG_ACCOUNT_SESSION_NAME
                  (factory_region mgr) (local_session w) \<and>
            ORG_ACCOUNT_SESSION_NAME = ''CustodianOrgAccount'' \<and>
            requests w' = requests w @
              [\<lparr>req_role_arn = role, req_session_name = ORG_ACCOUNT_SESSION_NAME,
                req_session = local_session w, req_region = factory_region mgr\<rparr>]) \<and>
         (org_session mgr = None \<and>
          (parse_access_role mgr = None \<or> parse_access_role mgr = Some [] \<or>
           lambda_member_role mgr w) \<longrightarrow>
            s = local_session w \<and> w' = w)"
  using assms
  by (auto simp: get_org_session_def assumed_session_def Let_def truthy_def
      ORG_ACCOUNT_SESSION_NAME_def
      split: option.splits sum.splits prod.splits if_splits)

theorem get_org_session_memoized_witness:
  "get_org_session example_provider example_manager example_world =
     (Inr (AssumedSession 0 ''arn:aws:iam::999999999999:role/OrgAccess'' ''CustodianOrgAccount''
             ''us-east-1'' example_local),
      example_manager\<lparr>org_session := Some (AssumedSession 0
          ''arn:aws:iam::999999999999:role/OrgAccess'' ''CustodianOrgAccount'' ''us-east-1''
          example_local)\<rparr>,
      snd (snd (get_org_session example_provider example_manager example_world))) \<and>
   get_org_session deny_all (example_manager\<lparr>org_session := Some (AssumedSession 0
          ''arn:aws:iam::999999999999:role/OrgAccess'' ''CustodianOrgAccount'' ''us-east-1''
          example_local)\<rparr>)
        (example_world\<lparr>local_session := LocalSession 5 ''us-east-1''\<rparr>) =
     (Inr (AssumedSession 0 ''arn:aws:iam::999999999999:role/OrgAccess'' ''CustodianOrgAccount''
             ''us-east-1'' example_local),
      example_manager\<lparr>org_session := Some (AssumedSession 0
          ''arn:aws:iam::999999999999:role/OrgAccess'' ''CustodianOrgAccount'' ''us-east-1''
          example_local)\<rparr>,
      example_world\<lparr>local_session := LocalSession 5 ''us-east-1''\<rparr>) \<and>
   requests (snd (snd (get_org_session example_provider example_manager example_world))) =
     [\<lparr>req_role_arn = ''arn:aws:iam::999999999999:role/OrgAccess'',
       req_session_name = ''CustodianOrgAccount'', req_session = example_local,
       req_region = ''us-east-1''\<rparr>]"
proof -
  let ?s = "AssumedSession 0 ''arn:aws:iam::999999999999:role/OrgAccess'' ''CustodianOrgAccount''
             ''us-east-1'' example_local"
  let ?w' = "snd (snd (get_org_session example_provider example_manager example_world))"
  have lam: "\<not> lambda_member_role example_manager example_world"
    by (simp add: lambda_member_role_def example_world_def)
  have loc: "local_session example_world = example_local" "requests example_world = []"
    by (simp_all add: example_world_def example_local_def)
  have h: "get_org_session example_provider example_manager example_world =
     (Inr ?s, example_manager\<lparr>org_session := Some ?s\<rparr>, ?w')"
    by (simp add: get_org_session_def example_manager_eq example_access_role truthy_def lam
        assumed_session_def Let_def example_provider_def loc ORG_ACCOUNT_SESSION_NAME_def)
  from get_org_session_memoized[OF h, of deny_all
      "example_world\<lparr>local_session := LocalSession 5 ''us-east-1''\<rparr>"
      "''arn:aws:iam::999999999999:role/OrgAccess''"]
  show ?thesis
    using h lam example_access_role
    by (simp add: example_manager_eq loc ORG_ACCOUNT_SESSION_NAME_def)
qed

section \<open>The account fan-out\<close>

subsection \<open>One account\<close>

lemma process_regions_Inr:
  assumes "process_regions op a s rs acc = Inr m"
  shows "m = (\<lambda>r. if r \<in> set rs
                  then Some (case op a r s of Inl e \<Rightarrow> PyBool False | Inr v \<Rightarrow> v)
                  else acc r)"
  using assms
proof (induction rs arbitrary: acc)
  case Nil
  then show ?case by simp
next
  case (Cons r rs)
  show ?case
  proof (cases "op a r s")
    case (Inr v)
    with Cons.prems have "process_regions op a s rs (acc(r \<mapsto> v)) = Inr m"
      by simp
    from Cons.IH[OF this] show ?thesis
      using Inr by (auto simp: fun_eq_iff)
  next
    case (Inl e)
    with Cons.prems have ex: "is_Exception e"
      and "process_regions op a s rs (acc(r \<mapsto> PyBool False)) = Inr m"
      by (auto split: if_splits)
    from Cons.IH[OF this(2)] show ?thesis
      using Inl by (auto simp: fun_eq_iff)
  qed
qed

lemma process_regions_total:
  assumes "\<forall>r\<in>set rs. \<forall>e. op a r s = Inl e \<longrightarrow> is_Exception e"
  shows "\<exists>m. process_regions op a s rs acc = Inr m"
  using assms
  by (induction rs arbitrary: acc) (auto split: sum.splits)

lemma process_regions_Inl:
  assumes "process_regions op a s rs acc = Inl e"
  shows "\<not> is_Exception e \<and> (\<exists>r\<in>set rs. op a r s = Inl e)"
  using assms
  by (induction rs arbitrary: acc) (auto split: sum.splits if_splits)

lemma process_account_Inr:
  assumes "process_account flt op a s = Inr m"
  shows "m = unit_results op a s (resolve_regions flt a s)"
  using process_regions_Inr[OF assms[unfolded process_account_def]]
  by (simp add: unit_results_def)

lemma resolve_regions_const:
  "resolve_regions flt b s = resolve_regions flt b' s'"
  by (simp add: resolve_regions_def)

lemma dom_unit_results: "dom (unit_results op a s rs) = set rs"
  by (auto simp: unit_results_def split: if_splits)

subsection \<open>The submission loop\<close>

lemma resolve_role_Id:
  "account_Id b = account_Id a \<Longrightarrow> resolve_role fmt role b = resolve_role fmt role a"
  by (simp add: resolve_role_def)

lemma account_session_cache_mono:
  assumes "account_session sts fmt org a role w = (r, w')" and "org_accounts w k = Some x"
  shows "org_accounts w' k = Some x"
  using assms
  by (auto simp: account_session_def assumed_session_def Let_def
      split: sum.splits option.splits prod.splits)

lemma account_session_denied_absent:
  assumes "account_session sts fmt org a role w = (r, w')"
    and "org_accounts w k = None" and "sts (account_request org k) \<noteq> None"
  shows "org_accounts w' k = None"
  using assms
  by (auto simp: account_session_def assumed_session_def Let_def account_request_def
      split: sum.splits option.splits prod.splits)

lemma account_session_allowed_present:
  assumes "account_session sts fmt org a role w = (r, w')"
    and "org_accounts w k \<noteq> None \<or> sts (account_request org k) = None"
  shows "org_accounts w' k \<noteq> None \<or> sts (account_request org k) = None"
  using assms
  by (auto simp: account_session_def assumed_session_def Let_def account_request_def
      split: sum.splits option.splits prod.splits)

lemma account_session_failure:
  assumes "account_session sts fmt org a role w = (Inl e, w')"
  shows "org_accounts w' = org_accounts w \<and>
         (resolve_role fmt role a = Inl e \<or>
          (\<exists>arn. resolve_role fmt role a = Inr arn \<and> org_accounts w arn = None \<and>
                 sts (account_request org arn) = Some e))"
  using assms
  by (auto simp: account_session_def assumed_session_def Let_def account_request_def
      split: sum.splits option.splits prod.splits)

lemma account_session_success:
  assumes "account_session sts fmt org a role w = (Inr s, w')"
  shows "\<exists>arn. resolve_role fmt role a = Inr arn \<and> org_accounts w' arn = Some s \<and>
               (org_accounts w arn \<noteq> None \<or> sts (account_request org arn) = None)"
  using assms
  by (auto simp: account_session_def assumed_session_def Let_def account_request_def
      split: sum.splits option.splits prod.splits)

lemma account_session_log:
  assumes "account_session sts fmt org a role w = (r, w')"
  shows "error_log w' = error_log w"
  using assms
  by (auto simp: account_session_def assumed_session_def Let_def
      split: sum.splits option.splits prod.splits)

lemma submit_step:
  assumes "submit_accounts sts fmt op flt mgr org (a # as) fs w = (Inr fs', w')"
  obtains role s w1 where "account_config mgr ''org-account-role'' = Some role"
      and "account_session sts fmt org a role w = (Inr s, w1)"
      and "submit_accounts sts fmt op flt mgr org as (fs @ [(a, process_account flt op a s)]) w1 =
             (Inr fs', w')"
  | role w1 where "account_config mgr ''org-account-role'' = Some role"
      and "account_session sts fmt org a role w = (Inl ClientError, w1)"
      and "submit_accounts sts fmt op flt mgr org as fs
             (w1\<lparr>error_log := error_log w1 @
                  [RoleAssumeError (account_Name a) (account_Id a) role]\<rparr>) = (Inr fs', w')"
  using assms
  by (auto split: option.splits prod.splits sum.splits if_splits)

lemma submit_cache_mono:
  assumes "submit_accounts sts fmt op flt mgr org as fs w = (Inr fs', w')"
    and "org_accounts w k = Some x"
  shows "org_accounts w' k = Some x"
  using assms
proof (induction as arbitrary: fs w)
  case Nil
  then show ?case by simp
next
  case (Cons a as)
  from Cons.prems(1) show ?case
  proof (cases rule: submit_step)
    case (1 role s w1)
    from account_session_cache_mono[OF 1(2) Cons.prems(2)] Cons.IH[OF 1(3)]
    show ?thesis by simp
  next
    case (2 role w1)
    from account_session_cache_mono[OF 2(2) Cons.prems(2)] Cons.IH[OF 2(3)]
    show ?thesis by simp
  qed
qed

lemma submit_denied_absent:
  assumes "submit_accounts sts fmt op flt mgr org as fs w = (Inr fs', w')"
    and "org_accounts w k = None" and "sts (account_request org k) \<noteq> None"
  shows "org_accounts w' k = None"
  using assms
proof (induction as arbitrary: fs w)
  case Nil
  then show ?case by simp
next
  case (Cons a as)
  from Cons.prems(1) show ?case
  proof (cases rule: submit_step)
    case (1 role s w1)
    from account_session_denied_absent[OF 1(2) Cons.prems(2,3)] Cons.IH[OF 1(3) _ Cons.prems(3)]
    show ?thesis by simp
  next
    case (2 role w1)
    from account_session_denied_absent[OF 2(2) Cons.prems(2,3)] Cons.IH[OF 2(3) _ Cons.prems(3)]
    show ?thesis by simp
  qed
qed

text \<open>The futures that the loop adds, and the accounts it adds them for.\<close>

lemma submit_futures:
  assumes "submit_accounts sts fmt op flt mgr org as fs w = (Inr fs', w')"
  shows "\<exists>new. fs' = fs @ new \<and>
           (\<forall>(b, t)\<in>set new. b \<in> set as \<and>
              (\<exists>role arn s. account_config mgr ''org-account-role'' = Some role \<and>
                 resolve_role fmt role b = Inr arn \<and> org_accounts w' arn = Some s \<and>
                 t = process_account flt op b s))"
  using assms
proof (induction as arbitrary: fs w)
  case Nil
  then show ?case by simp
next
  case (Cons a as)
  from Cons.prems(1) show ?case
  proof (cases rule: submit_step)
    case (1 role s w1)
    from Cons.IH[OF 1(3)] obtain new where
      n: "fs' = (fs @ [(a, process_account flt op a s)]) @ new"
      and m: "\<forall>(b, t)\<in>set new. b \<in> set as \<and>
              (\<exists>role arn s. account_config mgr ''org-account-role'' = Some role \<and>
                 resolve_role fmt role b = Inr arn \<and> org_accounts w' arn = Some s \<and>
                 t = process_account flt op b s)"
      by blast
    from account_session_success[OF 1(2)] obtain arn where
      "resolve_role fmt role a = Inr arn" "org_accounts w1 arn = Some s"
      by blast
    with submit_cache_mono[OF 1(3)] 1(1) have
      h: "\<exists>role arn s'. account_config mgr ''org-account-role'' = Some role \<and>
                 resolve_role fmt role a = Inr arn \<and> org_accounts w' arn = Some s' \<and>
                 process_account flt op a s = process_account flt op a s'"
      by blast
    show ?thesis
      by (rule exI[of _ "(a, process_account flt op a s) # new"]) (use n m h in auto)
  next
    case (2 role w1)
    from Cons.IH[OF 2(3)] show ?thesis
      by fastforce
  qed
qed

text \<open>Every account whose role identifier ends up in the cache has a future.\<close>

lemma submit_covers:
  assumes "submit_accounts sts fmt op flt mgr org as fs w = (Inr fs', w')"
    and "b \<in> set as" and "account_config mgr ''org-account-role'' = Some role"
    and "resolve_role fmt role b = Inr arn" and "org_accounts w' arn = Some s"
  shows "(b, process_account flt op b s) \<in> set fs'"
  using assms
proof (induction as arbitrary: fs w)
  case Nil
  then show ?case by simp
next
  case (Cons a as)
  from submit_futures[OF Cons.prems(1)] have keeps: "\<And>x. x \<in> set fs \<Longrightarrow> x \<in> set fs'"
    by auto
  from Cons.prems(1) show ?case
  proof (cases rule: submit_step)
    case (1 role' s' w1)
    show ?thesis
    proof (cases "b = a")
      case True
      from account_session_success[OF 1(2)] obtain arn' where
        "resolve_role fmt role' a = Inr arn'" "org_accounts w1 arn' = Some s'"
        by blast
      with submit_cache_mono[OF 1(3)] True Cons.prems(3,4,5) 1(1) have "s' = s"
        by auto
      moreover from submit_futures[OF 1(3)]
      have "(a, process_account flt op a s') \<in> set fs'"
        by auto
      ultimately show ?thesis
        using True by simp
    next
      case False
      with Cons.prems(2) have "b \<in> set as" by simp
      from Cons.IH[OF 1(3) this Cons.prems(3,4,5)] show ?thesis .
    qed
  next
    case (2 role' w1)
    show ?thesis
    proof (cases "b = a")
      case True
      from account_session_failure[OF 2(2)] Cons.prems(3,4) True 2(1)
      have "org_accounts w1 arn = None" and "sts (account_request org arn) \<noteq> None"
        by auto
      with submit_denied_absent[OF 2(3), of arn] Cons.prems(5)
      show ?thesis by simp
    next
      case False
      with Cons.prems(2) have "b \<in> set as" by simp
      from Cons.IH[OF 2(3) this Cons.prems(3,4,5)] show ?thesis .
    qed
  qed
qed

lemma submit_allowed_present:
  assumes "submit_accounts sts fmt op flt mgr org as fs w = (Inr fs', w')"
    and "b \<in> set as" and "account_config mgr ''org-account-role'' = Some role"
    and "resolve_role fmt role b = Inr arn"
    and "org_accounts w arn \<noteq> None \<or> sts (account_request org arn) = None"
  shows "org_accounts w' arn \<noteq> None"
  using assms
proof (induction as arbitrary: fs w)
  case Nil
  then show ?case by simp
next
  case (Cons a as)
  from Cons.prems(1) show ?case
  proof (cases rule: submit_step)
    case (1 role' s' w1)
    show ?thesis
    proof (cases "b = a")
      case True
      from account_session_success[OF 1(2)] Cons.prems(3,4) True 1(1)
      have "org_accounts w1 arn = Some s'"
        by auto
      from submit_cache_mono[OF 1(3) this] show ?thesis by simp
    next
      case False
      with Cons.prems(2) have "b \<in> set as" by simp
      from Cons.IH[OF 1(3) this Cons.prems(3,4)] account_session_allowed_present[OF 1(2) Cons.prems(5)]
      show ?thesis by simp
    qed
  next
    case (2 role' w1)
    show ?thesis
    proof (cases "b = a")
      case True
      from account_session_failure[OF 2(2)] Cons.prems(3,4,5) True 2(1)
      show ?thesis by auto
    next
      case False
      with Cons.prems(2) have "b \<in> set as" by simp
      from Cons.IH[OF 2(3) this Cons.prems(3,4)] account_session_allowed_present[OF 2(2) Cons.prems(5)]
      show ?thesis by simp
    qed
  qed
qed

lemma submit_log_mono:
  assumes "submit_accounts sts fmt op flt mgr org as fs w = (Inr fs', w')"
  shows "set (error_log w) \<subseteq> set (error_log w')"
  using assms
proof (induction as arbitrary: fs w)
  case Nil
  then show ?case by simp
next
  case (Cons a as)
  from Cons.prems(1) show ?case
  proof (cases rule: submit_step)
    case (1 role s w1)
    from account_session_log[OF 1(2)] Cons.IH[OF 1(3)]
    show ?thesis by simp
  next
    case (2 role w1)
    from account_session_log[OF 2(2)] Cons.IH[OF 2(3)]
    show ?thesis by simp
  qed
qed

lemma submit_reports:
  assumes "submit_accounts sts fmt op flt mgr org as fs w = (Inr fs', w')"
    and "b \<in> set as" and "account_config mgr ''org-account-role'' = Some role"
    and "\<forall>arn. resolve_role fmt role b = Inr arn \<longrightarrow> org_accounts w' arn = None"
  shows "RoleAssumeError (account_Name b) (account_Id b) role \<in> set (error_log w')"
  using assms
proof (induction as arbitrary: fs w)
  case Nil
  then show ?case by simp
next
  case (Cons a as)
  from Cons.prems(1) show ?case
  proof (cases rule: submit_step)
    case (1 role' s' w1)
    show ?thesis
    proof (cases "b = a")
      case True
      from account_session_success[OF 1(2)] obtain arn where
        "resolve_role fmt role' a = Inr arn" "org_accounts w1 arn = Some s'"
        by blast
      with submit_cache_mono[OF 1(3)] True Cons.prems(3,4) 1(1) show ?thesis
        by auto
    next
      case False
      with Cons.prems(2) have "b \<in> set as" by simp
      from Cons.IH[OF 1(3) this Cons.prems(3,4)] show ?thesis .
    qed
  next
    case (2 role' w1)
    show ?thesis
    proof (cases "b = a")
      case True
      from submit_log_mono[OF 2(3)] True Cons.prems(3) 2(1) show ?thesis
        by auto
    next
      case False
      with Cons.prems(2) have "b \<in> set as" by simp
      from Cons.IH[OF 2(3) this Cons.prems(3,4)] show ?thesis .
    qed
  qed
qed

subsection \<open>The completion loop\<close>

lemma gather_Cons:
  "gather ((a, t) # fs) (res, log) =
     (case t of
        Inl e \<Rightarrow> gather fs (res, log @ [AccountError (account_Name a) (account_Id a) e])
      | Inr m \<Rightarrow> gather fs (res(account_Id a \<mapsto> m), log))"
  by (cases t) simp_all

lemma gather_entry:
  assumes "fst (gather fs (res, log)) i = Some m"
  shows "res i = Some m \<or> (\<exists>a. (a, Inr m) \<in> set fs \<and> account_Id a = i)"
  using assms
proof (induction fs arbitrary: res log)
  case Nil
  then show ?case by simp
next
  case (Cons f fs)
  obtain a t where f: "f = (a, t)" by (cases f)
  show ?case
  proof (cases t)
    case (Inl e)
    with Cons.prems f have "fst (gather fs (res, log @ [AccountError (account_Name a) (account_Id a) e])) i = Some m"
      by simp
    from Cons.IH[OF this] show ?thesis
      using f by auto
  next
    case (Inr rr)
    with Cons.prems f have "fst (gather fs (res(account_Id a \<mapsto> rr), log)) i = Some m"
      by simp
    from Cons.IH[OF this] show ?thesis
      using f Inr by (auto split: if_splits)
  qed
qed

lemma gather_keeps:
  assumes "i \<in> dom res"
  shows "i \<in> dom (fst (gather fs (res, log)))"
  using assms
proof (induction fs arbitrary: res log)
  case Nil
  then show ?case by simp
next
  case (Cons f fs)
  obtain a t where f: "f = (a, t)" by (cases f)
  show ?case
  proof (cases t)
    case (Inl e)
    show ?thesis
      unfolding f Inl gather.simps by (rule Cons.IH) (rule Cons.prems)
  next
    case (Inr m)
    have "i \<in> dom (res(account_Id a \<mapsto> m))"
      using Cons.prems by simp
    then show ?thesis
      unfolding f Inr gather.simps by (rule Cons.IH)
  qed
qed

lemma gather_present:
  assumes "(a, Inr m) \<in> set fs"
  shows "account_Id a \<in> dom (fst (gather fs (res, log)))"
  using assms
proof (induction fs arbitrary: res log)
  case Nil
  then show ?case by simp
next
  case (Cons f fs)
  obtain b t where f: "f = (b, t)" by (cases f)
  show ?case
  proof (cases "(a, Inr m) \<in> set fs")
    case True
    show ?thesis
    proof (cases t)
      case (Inl e)
      show ?thesis
        unfolding f Inl gather.simps by (rule Cons.IH) (rule True)
    next
      case (Inr m')
      show ?thesis
        unfolding f Inr gather.simps by (rule Cons.IH) (rule True)
    qed
  next
    case False
    with Cons.prems f have "b = a" "t = Inr m" by auto
    moreover have "account_Id a \<in> dom (res(account_Id a \<mapsto> m))"
      by simp
    ultimately show ?thesis
      unfolding f using gather_keeps by simp
  qed
qed

lemma gather_log_mono:
  "set log \<subseteq> set (snd (gather fs (res, log)))"
proof (induction fs arbitrary: res log)
  case Nil
  then show ?case by simp
next
  case (Cons f fs)
  obtain a t where f: "f = (a, t)" by (cases f)
  show ?case
  proof (cases t)
    case (Inl e)
    have "set (log @ [AccountError (account_Name a) (account_Id a) e])
            \<subseteq> set (snd (gather fs (res, log @ [AccountError (account_Name a) (account_Id a) e])))"
      by (rule Cons.IH)
    then show ?thesis
      unfolding f Inl gather.simps by simp
  next
    case (Inr m)
    show ?thesis
      unfolding f Inr gather.simps by (rule Cons.IH)
  qed
qed

lemma gather_logs_error:
  assumes "(a, Inl e) \<in> set fs"
  shows "AccountError (account_Name a) (account_Id a) e \<in> set (snd (gather fs (res, log)))"
  using assms
proof (induction fs arbitrary: res log)
  case Nil
  then show ?case by simp
next
  case (Cons f fs)
  obtain b t where f: "f = (b, t)" by (cases f)
  show ?case
  proof (cases "(a, Inl e) \<in> set fs")
    case True
    show ?thesis
    proof (cases t)
      case (Inl e')
      show ?thesis
        unfolding f Inl gather.simps by (rule Cons.IH) (rule True)
    next
      case (Inr m')
      show ?thesis
        unfolding f Inr gather.simps by (rule Cons.IH) (rule True)
    qed
  next
    case False
    with Cons.prems f have "b = a" "t = Inl e" by auto
    then show ?thesis
      unfolding f
      using gather_log_mono[of "log @ [AccountError (account_Name a) (account_Id a) e]" fs res]
      by auto
  qed
qed

subsection \<open>The whole batch\<close>

lemma get_org_session_config:
  assumes "get_org_session sts mgr w = (r, mgr', w')"
  shows "account_config mgr' = account_config mgr"
  using assms
  by (auto simp: get_org_session_def Let_def split: option.splits sum.splits prod.splits if_splits)

lemma process_account_set_run:
  assumes "process_account_set sts fmt op as_completed flt mgr resources w = (Inr results, mgr', w')"
  obtains org w1 futures w2 where
    "get_org_session sts mgr w = (Inr org, mgr', w1)"
    "submit_accounts sts fmt op flt mgr' org resources [] w1 = (Inr futures, w2)"
    "fst (gather (as_completed futures) (Map.empty, error_log w2)) = results"
    "snd (gather (as_completed futures) (Map.empty, error_log w2)) = error_log w'"
    "org_accounts w' = org_accounts w2"
  using assms
  by (auto simp: process_account_set_def split: prod.splits sum.splits)

lemma batch_entry:
  assumes run: "process_account_set sts fmt op as_completed flt mgr resources w = (Inr results, mgr', w')"
    and perm: "\<forall>fs. mset (as_completed fs) = mset fs"
    and entry: "results i = Some m"
  shows "\<exists>b\<in>set resources. \<exists>role arn s. account_Id b = i \<and>
           account_config mgr ''org-account-role'' = Some role \<and>
           resolve_role fmt role b = Inr arn \<and> org_accounts w' arn = Some s \<and>
           process_account flt op b s = Inr m"
proof -
  from run obtain org w1 futures w2 where
    g: "get_org_session sts mgr w = (Inr org, mgr', w1)"
    and s: "submit_accounts sts fmt op flt mgr' org resources [] w1 = (Inr futures, w2)"
    and r: "fst (gather (as_completed futures) (Map.empty, error_log w2)) = results"
    and c: "org_accounts w' = org_accounts w2"
    by (rule process_account_set_run)
  from perm have st: "set (as_completed futures) = set futures"
    by (metis mset_eq_setD)
  from gather_entry[of "as_completed futures" Map.empty "error_log w2" i m] r entry st
  obtain b where b: "(b, Inr m) \<in> set futures" "account_Id b = i"
    by auto
  from submit_futures[OF s] b(1) obtain role arn s' where
    "b \<in> set resources" "account_config mgr' ''org-account-role'' = Some role"
    "resolve_role fmt role b = Inr arn" "org_accounts w2 arn = Some s'"
    "Inr m = process_account flt op b s'"
    by fastforce
  with b(2) c get_org_session_config[OF g] show ?thesis
    by (intro bexI[of _ b] exI[of _ role] exI[of _ arn] exI[of _ s']) simp_all
qed

lemma batch_present:
  assumes run: "process_account_set sts fmt op as_completed flt mgr resources w = (Inr results, mgr', w')"
    and perm: "\<forall>fs. mset (as_completed fs) = mset fs"
    and b: "b \<in> set resources" and role: "account_config mgr ''org-account-role'' = Some role"
    and arn: "resolve_role fmt role b = Inr arn" and s: "org_accounts w' arn = Some s"
    and m: "process_account flt op b s = Inr m"
  shows "account_Id b \<in> dom results"
proof -
  from run obtain org w1 futures w2 where
    g: "get_org_session sts mgr w = (Inr org, mgr', w1)"
    and sb: "submit_accounts sts fmt op flt mgr' org resources [] w1 = (Inr futures, w2)"
    and r: "fst (gather (as_completed futures) (Map.empty, error_log w2)) = results"
    and c: "org_accounts w' = org_accounts w2"
    by (rule process_account_set_run)
  from perm have st: "set (as_completed futures) = set futures"
    by (metis mset_eq_setD)
  from role get_org_session_config[OF g]
  have role': "account_config mgr' ''org-account-role'' = Some role" by simp
  from submit_covers[OF sb b role' arn] s c m
  have "(b, Inr m) \<in> set (as_completed futures)"
    by (simp add: st)
  from gather_present[OF this, of Map.empty "error_log w2"] r show ?thesis
    by simp
qed

lemma batch_task_error_logged:
  assumes run: "process_account_set sts fmt op as_completed flt mgr resources w = (Inr results, mgr', w')"
    and perm: "\<forall>fs. mset (as_completed fs) = mset fs"
    and b: "b \<in> set resources" and role: "account_config mgr ''org-account-role'' = Some role"
    and arn: "resolve_role fmt role b = Inr arn" and s: "org_accounts w' arn = Some s"
    and e: "process_account flt op b s = Inl e"
  shows "AccountError (account_Name b) (account_Id b) e \<in> set (error_log w')"
proof -
  from run obtain org w1 futures w2 where
    g: "get_org_session sts mgr w = (Inr org, mgr', w1)"
    and sb: "submit_accounts sts fmt op flt mgr' org resources [] w1 = (Inr futures, w2)"
    and l: "snd (gather (as_completed futures) (Map.empty, error_log w2)) = error_log w'"
    and c: "org_accounts w' = org_accounts w2"
    by (rule process_account_set_run)
  from perm have st: "set (as_completed futures) = set futures"
    by (metis mset_eq_setD)
  from role get_org_session_config[OF g]
  have role': "account_config mgr' ''org-account-role'' = Some role" by simp
  from submit_covers[OF sb b role' arn] s c e
  have "(b, Inl e) \<in> set (as_completed futures)"
    by (simp add: st)
  from gather_logs_error[OF this, of Map.empty "error_log w2"] l show ?thesis
    by simp
qed

lemma batch_resolution:
  assumes run: "process_account_set sts fmt op as_completed flt mgr resources w = (Inr results, mgr', w')"
    and org: "get_org_session sts mgr w = (Inr org, mgr1, w1)"
    and b: "b \<in> set resources" and role: "account_config mgr ''org-account-role'' = Some role"
  shows "(fst (account_session sts fmt org b role w1) = Inl ClientError \<longrightarrow>
            (\<forall>arn. resolve_role fmt role b = Inr arn \<longrightarrow> org_accounts w' arn = None) \<and>
            RoleAssumeError (account_Name b) (account_Id b) role \<in> set (error_log w')) \<and>
         (\<forall>s0. fst (account_session sts fmt org b role w1) = Inr s0 \<longrightarrow>
            (\<exists>arn s. resolve_role fmt role b = Inr arn \<and> org_accounts w' arn = Some s))"
proof -
  from run obtain org' w1' futures w2 where
    g: "get_org_session sts mgr w = (Inr org', mgr', w1')"
    and sb: "submit_accounts sts fmt op flt mgr' org' resources [] w1' = (Inr futures, w2)"
    and l: "snd (gather (as_completed futures) (Map.empty, error_log w2)) = error_log w'"
    and c: "org_accounts w' = org_accounts w2"
    by (rule process_account_set_run)
  from g org have eq: "org' = org" "w1' = w1" "mgr1 = mgr'" by simp_all
  note sb = sb[unfolded eq]
  from role get_org_session_config[OF org] eq
  have role': "account_config mgr' ''org-account-role'' = Some role" by simp
  have logs: "set (error_log w2) \<subseteq> set (error_log w')"
    using gather_log_mono[of "error_log w2" "as_completed futures" Map.empty] l by simp
  show ?thesis
  proof (intro conjI impI allI)
    assume f: "fst (account_session sts fmt org b role w1) = Inl ClientError"
    then obtain wx where "account_session sts fmt org b role w1 = (Inl ClientError, wx)"
      by (cases "account_session sts fmt org b role w1") simp
    from account_session_failure[OF this]
    have d: "resolve_role fmt role b = Inl ClientError \<or>
          (\<exists>arn. resolve_role fmt role b = Inr arn \<and> org_accounts w1 arn = None \<and>
                 sts (account_request org arn) = Some ClientError)"
      by simp
    then have absent: "\<forall>arn. resolve_role fmt role b = Inr arn \<longrightarrow> org_accounts w2 arn = None"
      using submit_denied_absent[OF sb] by auto
    then show "\<And>arn. resolve_role fmt role b = Inr arn \<Longrightarrow> org_accounts w' arn = None"
      using c by simp
    from submit_reports[OF sb b role' absent] logs
    show "RoleAssumeError (account_Name b) (account_Id b) role \<in> set (error_log w')"
      by auto
  next
    fix s0
    assume f: "fst (account_session sts fmt org b role w1) = Inr s0"
    then obtain wx where "account_session sts fmt org b role w1 = (Inr s0, wx)"
      by (cases "account_session sts fmt org b role w1") simp
    from account_session_success[OF this] obtain arn where
      arn: "resolve_role fmt role b = Inr arn"
      and ok: "org_accounts w1 arn \<noteq> None \<or> sts (account_request org arn) = None"
      by blast
    from submit_allowed_present[OF sb b role' arn ok] c arn
    show "\<exists>arn s. resolve_role fmt role b = Inr arn \<and> org_accounts w' arn = Some s"
      by auto
  qed
qed

subsection \<open>The example batches\<close>

lemma example_get_org_session:
  "get_org_session example_provider example_manager example_world =
     (Inr example_org_handle, example_manager\<lparr>org_session := Some example_org_handle\<rparr>,
      example_world\<lparr>requests :=
        [\<lparr>req_role_arn = ''arn:aws:iam::999999999999:role/OrgAccess'',
          req_session_name = ''CustodianOrgAccount'', req_session = example_local,
          req_region = ''us-east-1''\<rparr>]\<rparr>)"
proof -
  have lam: "\<not> lambda_member_role example_manager example_world"
    by (simp add: lambda_member_role_def example_world_def)
  have loc: "local_session example_world = example_local" "requests example_world = []"
    by (simp_all add: example_world_def example_local_def)
  show ?thesis
    by (simp add: get_org_session_def example_manager_eq example_access_role truthy_def lam
        assumed_session_def Let_def example_provider_def loc ORG_ACCOUNT_SESSION_NAME_def
        example_org_handle_def)
qed

lemma example_world_fields:
  "requests example_world = []" "org_accounts example_world = Map.empty"
  "error_log example_world = []" "local_session example_world = example_local"
  by (simp_all add: example_world_def example_local_def)

lemma example_batch:
  "process_account_set example_provider plain_format example_op rev example_regions
     example_manager [T1, T2] example_world =
   (Inr [''222222222222'' \<mapsto> [''east'' \<mapsto> PyBool False, ''west'' \<mapsto> PyStr ''ok'']],
    example_manager\<lparr>org_session := Some example_org_handle\<rparr>,
    \<lparr>environ = Map.empty, local_session = example_local,
     requests =
        [account_request example_local ''arn:aws:iam::999999999999:role/OrgAccess'',
         account_request example_org_handle
           ''arn:aws:iam::111111111111:role/OrganizationAccountAccessRole'',
         account_request example_org_handle
           ''arn:aws:iam::222222222222:role/OrganizationAccountAccessRole''],
     org_accounts =
        [''arn:aws:iam::222222222222:role/OrganizationAccountAccessRole'' \<mapsto> handle_T2],
     error_log =
        [RoleAssumeError ''suspended'' ''111111111111'' ''OrganizationAccountAccessRole'']\<rparr>)"
  by (simp add: process_account_set_def get_org_session_def example_access_role truthy_def
      lambda_member_role_def example_manager_eq
      account_session_def resolve_role_def startswith_def assumed_session_def Let_def
      example_provider_def T1_def T2_def process_account_def resolve_regions_def
      example_regions_def example_op_def example_world_def example_org_handle_def
      ORG_ACCOUNT_SESSION_NAME_def account_request_def handle_T2_def example_local_def
      numeral_2_eq_2)

lemma example_sessions:
  "fst (account_session example_provider plain_format example_org_handle T1
          ''OrganizationAccountAccessRole''
          (example_world\<lparr>requests :=
             [\<lparr>req_role_arn = ''arn:aws:iam::999999999999:role/OrgAccess'',
               req_session_name = ''CustodianOrgAccount'', req_session = example_local,
               req_region = ''us-east-1''\<rparr>]\<rparr>)) = Inl ClientError"
  "fst (account_session example_provider plain_format example_org_handle T2
          ''OrganizationAccountAccessRole''
          (example_world\<lparr>requests :=
             [\<lparr>req_role_arn = ''arn:aws:iam::999999999999:role/OrgAccess'',
               req_session_name = ''CustodianOrgAccount'', req_session = example_local,
               req_region = ''us-east-1''\<rparr>]\<rparr>)) =
     Inr (AssumedSession 1 ''arn:aws:iam::222222222222:role/OrganizationAccountAccessRole''
            ''CustodianOrgAccount'' ''us-east-1'' example_org_handle)"
  by (simp_all add: account_session_def resolve_role_def startswith_def assumed_session_def
      Let_def example_provider_def T1_def T2_def example_world_fields example_org_handle_def
      ORG_ACCOUNT_SESSION_NAME_def)

lemma example_process_account:
  "process_account example_regions example_op T2 handle_T2 =
     Inr [''east'' \<mapsto> PyBool False, ''west'' \<mapsto> PyStr ''ok'']"
  by (simp add: process_account_def resolve_regions_def example_regions_def example_op_def T2_def)

lemma example_batch_dropped:
  "process_account_set example_provider plain_format example_op rev example_regions
     example_manager [T3, T2] example_world =
   (Inr [''222222222222'' \<mapsto> [''east'' \<mapsto> PyBool False, ''west'' \<mapsto> PyStr ''ok'']],
    example_manager\<lparr>org_session := Some example_org_handle\<rparr>, example_world_dropped)"
  by (simp add: process_account_set_def get_org_session_def example_access_role truthy_def
      lambda_member_role_def example_manager_eq
      account_session_def resolve_role_def startswith_def assumed_session_def Let_def
      example_provider_def T3_def T2_def process_account_def resolve_regions_def
      example_regions_def example_op_def example_world_def example_org_handle_def
      ORG_ACCOUNT_SESSION_NAME_def account_request_def handle_T2_def handle_T3_def
      example_local_def example_world_dropped_def numeral_2_eq_2)

subsection \<open>Regions of one account\<close>

text \<open>
  C2. Whenever \<^verbatim>\<open>process_account\<close> returns, its map has exactly the configured regions as
  keys, and the entry of each region is the value the operation returned there or \<^verbatim>\<open>False\<close>
  if it raised there, whatever happened in the other regions. It does return when the
  operation raises nothing but \<^verbatim>\<open>Exception\<close>s. Without a \<^verbatim>\<open>regions\<close> entry the region list
  is the single region \<^verbatim>\<open>us-east-1\<close>. In a batch that returns, with the futures completing
  in any order, every entry of the result is such a map, for an account of the batch with
  that id and the session cached for it. And every account of the batch whose session
  resolves, and whose operation raises nothing but \<^verbatim>\<open>Exception\<close>s, has an entry whose keys
  are exactly the configured regions; it is the region map of that very account when no
  other account of the batch shares the id.
\<close>

theorem process_account_region_results:
  "(process_account flt op a s = Inr m \<longrightarrow>
      m = unit_results op a s (resolve_regions flt a s) \<and>
      dom m = set (resolve_regions flt a s)) \<and>
   ((\<forall>r\<in>set (resolve_regions flt a s). \<forall>e. op a r s = Inl e \<longrightarrow> is_Exception e) \<longrightarrow>
      (\<exists>m'. process_account flt op a s = Inr m')) \<and>
   (regions flt = None \<longrightarrow> resolve_regions flt a s = [''us-east-1'']) \<and>
   (process_account_set sts fmt op as_completed flt mgr resources w = (Inr results, mgr', w') \<and>
    (\<forall>fs. mset (as_completed fs) = mset fs) \<and>
    get_org_session sts mgr w = (Inr org, mgr1, w1) \<and>
    account_config mgr ''org-account-role'' = Some role \<longrightarrow>
      (\<forall>i rm. results i = Some rm \<longrightarrow>
         (\<exists>b\<in>set resources. \<exists>arn s'. account_Id b = i \<and>
            resolve_role fmt role b = Inr arn \<and> org_accounts w' arn = Some s' \<and>
            rm = unit_results op b s' (resolve_regions flt b s') \<and>
            dom rm = set (resolve_regions flt b s'))) \<and>
      (\<forall>b\<in>set resources. \<forall>s0.
         fst (account_session sts fmt org b role w1) = Inr s0 \<longrightarrow>
           (\<exists>arn s'. resolve_role fmt role b = Inr arn \<and> org_accounts w' arn = Some s' \<and>
              ((\<forall>r\<in>set (resolve_regions flt b s'). \<forall>e. op b r s' = Inl e \<longrightarrow> is_Exception e) \<longrightarrow>
                 (\<exists>rm. results (account_Id b) = Some rm \<and>
                    dom rm = set (resolve_regions flt b s') \<and>
                    ((\<forall>c\<in>set resources. account_Id c = account_Id b \<longrightarrow> c = b) \<longrightarrow>
                       rm = unit_results op b s' (resolve_regions flt b s')))))))"
proof (intro conjI impI)
  assume "process_account flt op a s = Inr m"
  from process_account_Inr[OF this]
  show "m = unit_results op a s (resolve_regions flt a s)" .
  then show "dom m = set (resolve_regions flt a s)"
    by (simp add: dom_unit_results)
next
  assume "\<forall>r\<in>set (resolve_regions flt a s). \<forall>e. op a r s = Inl e \<longrightarrow> is_Exception e"
  with process_regions_total[where op = op and a = a and s = s
      and rs = "resolve_regions flt a s" and acc = Map.empty]
  show "\<exists>m'. process_account flt op a s = Inr m'"
    by (auto simp: process_account_def)
next
  assume "regions flt = None"
  then show "resolve_regions flt a s = [''us-east-1'']"
    by (simp add: resolve_regions_def)
next
  assume h: "process_account_set sts fmt op as_completed flt mgr resources w = (Inr results, mgr', w') \<and>
    (\<forall>fs. mset (as_completed fs) = mset fs) \<and>
    get_org_session sts mgr w = (Inr org, mgr1, w1) \<and>
    account_config mgr ''org-account-role'' = Some role"
  then have run: "process_account_set sts fmt op as_completed flt mgr resources w = (Inr results, mgr', w')"
    and perm: "\<forall>fs. mset (as_completed fs) = mset fs"
    and org: "get_org_session sts mgr w = (Inr org, mgr1, w1)"
    and role: "account_config mgr ''org-account-role'' = Some role"
    by simp_all
  have entry: "\<exists>b\<in>set resources. \<exists>arn s'. account_Id b = i \<and>
            resolve_role fmt role b = Inr arn \<and> org_accounts w' arn = Some s' \<and>
            rm = unit_results op b s' (resolve_regions flt b s') \<and>
            dom rm = set (resolve_regions flt b s')"
    if e: "results i = Some rm" for i rm
  proof -
    from batch_entry[OF run perm e] role obtain b arn s' where
      b: "b \<in> set resources" "account_Id b = i" "resolve_role fmt role b = Inr arn"
      "org_accounts w' arn = Some s'" "process_account flt op b s' = Inr rm"
      by auto
    from process_account_Inr[OF b(5)]
    have "rm = unit_results op b s' (resolve_regions flt b s')" .
    with b show ?thesis
      using dom_unit_results by blast
  qed
  then show "\<forall>i rm. results i = Some rm \<longrightarrow>
         (\<exists>b\<in>set resources. \<exists>arn s'. account_Id b = i \<and>
            resolve_role fmt role b = Inr arn \<and> org_accounts w' arn = Some s' \<and>
            rm = unit_results op b s' (resolve_regions flt b s') \<and>
            dom rm = set (resolve_regions flt b s'))"
    by blast
  show "\<forall>b\<in>set resources. \<forall>s0.
         fst (account_session sts fmt org b role w1) = Inr s0 \<longrightarrow>
           (\<exists>arn s'. resolve_role fmt role b = Inr arn \<and> org_accounts w' arn = Some s' \<and>
              ((\<forall>r\<in>set (resolve_regions flt b s'). \<forall>e. op b r s' = Inl e \<longrightarrow> is_Exception e) \<longrightarrow>
                 (\<exists>rm. results (account_Id b) = Some rm \<and>
                    dom rm = set (resolve_regions flt b s') \<and>
                    ((\<forall>c\<in>set resources. account_Id c = account_Id b \<longrightarrow> c = b) \<longrightarrow>
                       rm = unit_results op b s' (resolve_regions flt b s')))))"
  proof (intro ballI allI impI)
    fix b s0
    assume b: "b \<in> set resources"
      and f: "fst (account_session sts fmt org b role w1) = Inr s0"
    from batch_resolution[OF run org b role] f obtain arn s' where
      arn: "resolve_role fmt role b = Inr arn" and s': "org_accounts w' arn = Some s'"
      by blast
    have "\<exists>rm. results (account_Id b) = Some rm \<and>
                    dom rm = set (resolve_regions flt b s') \<and>
                    ((\<forall>c\<in>set resources. account_Id c = account_Id b \<longrightarrow> c = b) \<longrightarrow>
                       rm = unit_results op b s' (resolve_regions flt b s'))"
      if caught: "\<forall>r\<in>set (resolve_regions flt b s'). \<forall>e. op b r s' = Inl e \<longrightarrow> is_Exception e"
    proof -
      from process_regions_total[where op = op and a = b and s = s'
          and rs = "resolve_regions flt b s'" and acc = Map.empty] caught
      obtain m0 where m0: "process_account flt op b s' = Inr m0"
        by (auto simp: process_account_def)
      from batch_present[OF run perm b role arn s' m0] obtain rm where
        rm: "results (account_Id b) = Some rm"
        by auto
      from entry[OF rm] obtain c arn2 s2 where
        c: "c \<in> set resources" "account_Id c = account_Id b"
        "resolve_role fmt role c = Inr arn2" "org_accounts w' arn2 = Some s2"
        "rm = unit_results op c s2 (resolve_regions flt c s2)"
        "dom rm = set (resolve_regions flt c s2)"
        by blast
      from c(6) have d: "dom rm = set (resolve_regions flt b s')"
        using resolve_regions_const[of flt c s2 b s'] by simp
      have "rm = unit_results op b s' (resolve_regions flt b s')"
        if uniq: "\<forall>c\<in>set resources. account_Id c = account_Id b \<longrightarrow> c = b"
      proof -
        from uniq c(1,2) have "c = b" by simp
        with c(3,4) arn s' have "s2 = s'" by simp
        with c(5) \<open>c = b\<close> show ?thesis by simp
      qed
      with rm d show ?thesis by blast
    qed
    with arn s' show "\<exists>arn s'. resolve_role fmt role b = Inr arn \<and> org_accounts w' arn = Some s' \<and>
              ((\<forall>r\<in>set (resolve_regions flt b s'). \<forall>e. op b r s' = Inl e \<longrightarrow> is_Exception e) \<longrightarrow>
                 (\<exists>rm. results (account_Id b) = Some rm \<and>
                    dom rm = set (resolve_regions flt b s') \<and>
                    ((\<forall>c\<in>set resources. account_Id c = account_Id b \<longrightarrow> c = b) \<longrightarrow>
                       rm = unit_results op b s' (resolve_regions flt b s'))))"
      by blast
  qed
qed


theorem process_account_region_results_witness:
  "process_account example_regions example_op T2 handle_T2 =
     Inr [''east'' \<mapsto> PyBool False, ''west'' \<mapsto> PyStr ''ok''] \<and>
   [''east'' \<mapsto> PyBool False, ''west'' \<mapsto> PyStr ''ok''] =
     unit_results example_op T2 handle_T2 (resolve_regions example_regions T2 handle_T2) \<and>
   dom [''east'' \<mapsto> PyBool False, ''west'' \<mapsto> PyStr ''ok''] =
     set (resolve_regions example_regions T2 handle_T2) \<and>
   resolve_regions example_regions T2 handle_T2 = [''east'', ''west''] \<and>
   example_op T2 ''east'' handle_T2 = Inl RuntimeError \<and>
   regions \<lparr>regions = None\<rparr> = None \<and>
   resolve_regions \<lparr>regions = None\<rparr> T2 handle_T2 = [''us-east-1''] \<and>
   (\<exists>m'. process_account \<lparr>regions = None\<rparr> example_op T2 handle_T2 = Inr m') \<and>
   process_account_set example_provider plain_format example_op rev example_regions
     example_manager [T1, T2] example_world =
     (Inr [''222222222222'' \<mapsto> [''east'' \<mapsto> PyBool False, ''west'' \<mapsto> PyStr ''ok'']],
      example_manager\<lparr>org_session := Some example_org_handle\<rparr>, example_world_after) \<and>
   (\<forall>fs :: future list. mset (rev fs) = mset fs) \<and>
   account_config example_manager ''org-account-role'' = Some ''OrganizationAccountAccessRole'' \<and>
   (\<exists>b\<in>set [T1, T2]. \<exists>arn s'. account_Id b = ''222222222222'' \<and>
      resolve_role plain_format ''OrganizationAccountAccessRole'' b = Inr arn \<and>
      org_accounts example_world_after arn = Some s' \<and>
      [''east'' \<mapsto> PyBool False, ''west'' \<mapsto> PyStr ''ok''] =
        unit_results example_op b s' (resolve_regions example_regions b s') \<and>
      dom [''east'' \<mapsto> PyBool False, ''west'' \<mapsto> PyStr ''ok''] =
        set (resolve_regions example_regions b s')) \<and>
   (\<exists>rm. [''222222222222'' \<mapsto> [''east'' \<mapsto> PyBool False, ''west'' \<mapsto> PyStr ''ok'']]
           (account_Id T2) = Some rm \<and>
      dom rm = set (resolve_regions example_regions T2 handle_T2) \<and>
      rm = unit_results example_op T2 handle_T2 (resolve_regions example_regions T2 handle_T2))"
proof -
  let ?M = "[''east'' \<mapsto> PyBool False, ''west'' \<mapsto> PyStr ''ok'']"
  let ?R = "[''222222222222'' \<mapsto> ?M]"
  let ?role = "''OrganizationAccountAccessRole''"
  note run = example_batch[folded example_world_after_def]
  have perm: "\<forall>fs :: future list. mset (rev fs) = mset fs"
    by simp
  have role: "account_config example_manager ''org-account-role'' = Some ?role"
    by (simp add: example_manager_eq)
  have entry: "?R ''222222222222'' = Some ?M"
    by simp
  note A = process_account_region_results[where flt = example_regions and op = example_op
      and a = T2 and s = handle_T2 and m = ?M and sts = example_provider and fmt = plain_format
      and as_completed = rev and mgr = example_manager and resources = "[T1, T2]"
      and w = example_world and results = ?R
      and mgr' = "example_manager\<lparr>org_session := Some example_org_handle\<rparr>"
      and w' = example_world_after and role = ?role, THEN conjunct2, THEN conjunct2,
      THEN conjunct2, rule_format, OF conjI[OF run conjI[OF perm
        conjI[OF example_get_org_session role]]]]
  note A1 = process_account_region_results[where flt = example_regions and op = example_op
      and a = T2 and s = handle_T2 and m = ?M, THEN conjunct1, rule_format,
      OF example_process_account]
  note B = process_account_region_results[where flt = "\<lparr>regions = None\<rparr>" and op = example_op
      and a = T2 and s = handle_T2]
  have caught0: "\<forall>r\<in>set (resolve_regions \<lparr>regions = None\<rparr> T2 handle_T2).
      \<forall>e. example_op T2 r handle_T2 = Inl e \<longrightarrow> is_Exception e"
    by (simp add: resolve_regions_def example_op_def T2_def)
  have b1: "resolve_regions \<lparr>regions = None\<rparr> T2 handle_T2 = [''us-east-1'']"
    "\<exists>m'. process_account \<lparr>regions = None\<rparr> example_op T2 handle_T2 = Inr m'"
    using B caught0 by simp_all
  have c: "resolve_regions example_regions T2 handle_T2 = [''east'', ''west'']"
    "example_op T2 ''east'' handle_T2 = Inl RuntimeError"
    by (simp_all add: resolve_regions_def example_regions_def example_op_def)
  from A[THEN conjunct1, rule_format, OF entry]
  have a2: "\<exists>b\<in>set [T1, T2]. \<exists>arn s'. account_Id b = ''222222222222'' \<and>
      resolve_role plain_format ?role b = Inr arn \<and>
      org_accounts example_world_after arn = Some s' \<and>
      ?M = unit_results example_op b s' (resolve_regions example_regions b s') \<and>
      dom ?M = set (resolve_regions example_regions b s')" .
  have arn: "resolve_role plain_format ?role T2 =
      Inr ''arn:aws:iam::222222222222:role/OrganizationAccountAccessRole''"
    by (simp add: resolve_role_def startswith_def T2_def)
  have cache: "org_accounts example_world_after
      ''arn:aws:iam::222222222222:role/OrganizationAccountAccessRole'' = Some handle_T2"
    by (simp add: example_world_after_def)
  have caught: "\<forall>r\<in>set (resolve_regions example_regions T2 handle_T2).
      \<forall>e. example_op T2 r handle_T2 = Inl e \<longrightarrow> is_Exception e"
    by (simp add: resolve_regions_def example_regions_def example_op_def T2_def)
  have uniq: "\<forall>c\<in>set [T1, T2]. account_Id c = account_Id T2 \<longrightarrow> c = T2"
    by (simp add: T1_def T2_def)
  have t2: "T2 \<in> set [T1, T2]" by simp
  from A[THEN conjunct2, rule_format, OF t2 example_sessions(2)] arn cache caught uniq
  have a3: "\<exists>rm. ?R (account_Id T2) = Some rm \<and>
      dom rm = set (resolve_regions example_regions T2 handle_T2) \<and>
      rm = unit_results example_op T2 handle_T2 (resolve_regions example_regions T2 handle_T2)"
    by auto
  show ?thesis
    using example_process_account A1 c b1 run perm role a2 a3 by simp
qed

subsection \<open>Failure isolation\<close>

text \<open>
  C1. Failure isolation of \<^verbatim>\<open>process_account_set\<close>. Take any batch that returns, with the
  futures completing in any order, and any account \<open>a\<close> of the batch. If the session for \<open>a\<close>
  cannot be assumed (\<^verbatim>\<open>ClientError\<close>), the result has no key for the id of \<open>a\<close>, and the
  failure is logged. If the session resolves, it is cached under the role identifier of \<open>a\<close>
  when the batch ends; if the operation raises nothing but \<^verbatim>\<open>Exception\<close>s, the result has
  a key for the id of \<open>a\<close>; and if moreover no other account of the batch shares the id, the
  entry is the full region map of \<open>a\<close>: the returned value for every region that succeeded
  and \<^verbatim>\<open>False\<close> for every region that raised. The witness is the spec's scenario: \<open>T1\<close> is refused by the provider, \<open>T2\<close> raises
  in \<open>east\<close> and succeeds in \<open>west\<close>.
\<close>

theorem process_account_set_failure_isolation:
  assumes run: "process_account_set sts fmt op as_completed flt mgr resources w = (Inr results, mgr', w')"
    and perm: "\<forall>fs. mset (as_completed fs) = mset fs"
    and org: "get_org_session sts mgr w = (Inr org, mgr1, w1)"
    and role: "account_config mgr ''org-account-role'' = Some role"
    and a: "a \<in> set resources"
  shows "(fst (account_session sts fmt org a role w1) = Inl ClientError \<longrightarrow>
            results (account_Id a) = None \<and>
            RoleAssumeError (account_Name a) (account_Id a) role \<in> set (error_log w')) \<and>
         (\<forall>s0. fst (account_session sts fmt org a role w1) = Inr s0 \<longrightarrow>
            (\<exists>arn s. resolve_role fmt role a = Inr arn \<and> org_accounts w' arn = Some s \<and>
               ((\<forall>r\<in>set (resolve_regions flt a s). \<forall>e. op a r s = Inl e \<longrightarrow> is_Exception e) \<longrightarrow>
                  account_Id a \<in> dom results \<and>
                  ((\<forall>b\<in>set resources. account_Id b = account_Id a \<longrightarrow> b = a) \<longrightarrow>
                     results (account_Id a) =
                       Some (unit_results op a s (resolve_regions flt a s))))))"
proof (intro conjI impI allI)
  assume f: "fst (account_session sts fmt org a role w1) = Inl ClientError"
  with batch_resolution[OF run org a role]
  have absent: "\<forall>arn. resolve_role fmt role a = Inr arn \<longrightarrow> org_accounts w' arn = None"
    and logged: "RoleAssumeError (account_Name a) (account_Id a) role \<in> set (error_log w')"
    by blast+
  show "RoleAssumeError (account_Name a) (account_Id a) role \<in> set (error_log w')"
    by (rule logged)
  show "results (account_Id a) = None"
  proof (rule ccontr)
    assume "results (account_Id a) \<noteq> None"
    then obtain m where "results (account_Id a) = Some m" by auto
    from batch_entry[OF run perm this] role obtain b arn s where
      "account_Id b = account_Id a" "resolve_role fmt role b = Inr arn"
      "org_accounts w' arn = Some s"
      by auto
    with absent resolve_role_Id[of b a fmt role] show False
      by simp
  qed
next
  fix s0
  assume f: "fst (account_session sts fmt org a role w1) = Inr s0"
  with batch_resolution[OF run org a role] obtain arn s where
    arn: "resolve_role fmt role a = Inr arn" and s: "org_accounts w' arn = Some s"
    by blast
  have "account_Id a \<in> dom results \<and>
        ((\<forall>b\<in>set resources. account_Id b = account_Id a \<longrightarrow> b = a) \<longrightarrow>
           results (account_Id a) = Some (unit_results op a s (resolve_regions flt a s)))"
    if caught: "\<forall>r\<in>set (resolve_regions flt a s). \<forall>e. op a r s = Inl e \<longrightarrow> is_Exception e"
  proof (intro conjI impI)
    from process_regions_total[where op = op and a = a and s = s
        and rs = "resolve_regions flt a s" and acc = Map.empty] caught
    obtain m where m: "process_account flt op a s = Inr m"
      by (auto simp: process_account_def)
    from batch_present[OF run perm a role arn s m]
    show present: "account_Id a \<in> dom results" .
    assume uniq: "\<forall>b\<in>set resources. account_Id b = account_Id a \<longrightarrow> b = a"
    from present obtain m' where m': "results (account_Id a) = Some m'"
      by auto
    from batch_entry[OF run perm this] role uniq obtain arn' s' where
      "resolve_role fmt role a = Inr arn'" "org_accounts w' arn' = Some s'"
      "process_account flt op a s' = Inr m'"
      by auto
    with arn s have "process_account flt op a s = Inr m'"
      by simp
    from process_account_Inr[OF this] m'
    show "results (account_Id a) = Some (unit_results op a s (resolve_regions flt a s))"
      by simp
  qed
  with arn s show "\<exists>arn s. resolve_role fmt role a = Inr arn \<and> org_accounts w' arn = Some s \<and>
               ((\<forall>r\<in>set (resolve_regions flt a s). \<forall>e. op a r s = Inl e \<longrightarrow> is_Exception e) \<longrightarrow>
                  account_Id a \<in> dom results \<and>
                  ((\<forall>b\<in>set resources. account_Id b = account_Id a \<longrightarrow> b = a) \<longrightarrow>
                     results (account_Id a) =
                       Some (unit_results op a s (resolve_regions flt a s))))"
    by blast
qed

theorem process_account_set_failure_isolation_witness:
  "process_account_set example_provider plain_format example_op rev example_regions
     example_manager [T1, T2] example_world =
     (Inr [''222222222222'' \<mapsto> [''east'' \<mapsto> PyBool False, ''west'' \<mapsto> PyStr ''ok'']],
      example_manager\<lparr>org_session := Some example_org_handle\<rparr>, example_world_after) \<and>
   (\<forall>fs :: future list. mset (rev fs) = mset fs) \<and>
   account_config example_manager ''org-account-role'' = Some ''OrganizationAccountAccessRole'' \<and>
   [''222222222222'' \<mapsto> [''east'' \<mapsto> PyBool False, ''west'' \<mapsto> PyStr ''ok'']]
     (account_Id T1) = None \<and>
   RoleAssumeError (account_Name T1) (account_Id T1) ''OrganizationAccountAccessRole''
     \<in> set (error_log example_world_after) \<and>
   [''222222222222'' \<mapsto> [''east'' \<mapsto> PyBool False, ''west'' \<mapsto> PyStr ''ok'']]
     (account_Id T2) =
     Some (unit_results example_op T2 handle_T2 (resolve_regions example_regions T2 handle_T2)) \<and>
   example_op T2 ''east'' handle_T2 = Inl RuntimeError \<and>
   example_op T2 ''west'' handle_T2 = Inr (PyStr ''ok'')"
proof -
  let ?R = "[''222222222222'' \<mapsto> [''east'' \<mapsto> PyBool False, ''west'' \<mapsto> PyStr ''ok'']]"
  let ?role = "''OrganizationAccountAccessRole''"
  note run = example_batch[folded example_world_after_def]
  have perm: "\<forall>fs :: future list. mset (rev fs) = mset fs"
    by simp
  have role: "account_config example_manager ''org-account-role'' = Some ?role"
    by (simp add: example_manager_eq)
  note iso = process_account_set_failure_isolation[OF run perm example_get_org_session role]
  from iso[of T1] example_sessions(1)
  have t1: "?R (account_Id T1) = None \<and>
      RoleAssumeError (account_Name T1) (account_Id T1) ?role \<in> set (error_log example_world_after)"
    by simp
  have arn: "resolve_role plain_format ?role T2 =
      Inr ''arn:aws:iam::222222222222:role/OrganizationAccountAccessRole''"
    by (simp add: resolve_role_def startswith_def T2_def)
  have cache: "org_accounts example_world_after
      ''arn:aws:iam::222222222222:role/OrganizationAccountAccessRole'' = Some handle_T2"
    by (simp add: example_world_after_def)
  have caught: "\<forall>r\<in>set (resolve_regions example_regions T2 handle_T2).
      \<forall>e. example_op T2 r handle_T2 = Inl e \<longrightarrow> is_Exception e"
    by (simp add: resolve_regions_def example_regions_def example_op_def T2_def)
  have uniq: "\<forall>b\<in>set [T1, T2]. account_Id b = account_Id T2 \<longrightarrow> b = T2"
    by (simp add: T1_def T2_def)
  from iso[of T2] example_sessions(2) arn cache caught uniq
  have t2: "?R (account_Id T2) =
     Some (unit_results example_op T2 handle_T2 (resolve_regions example_regions T2 handle_T2))"
    by auto
  have ops: "example_op T2 ''east'' handle_T2 = Inl RuntimeError"
    "example_op T2 ''west'' handle_T2 = Inr (PyStr ''ok'')"
    by (simp_all add: example_op_def T2_def)
  show ?thesis
    using run perm role t1 t2 ops by blast
qed

subsection \<open>Tasks that end with an exception\<close>

text \<open>
  C3. Let the task of account \<open>a\<close> end with an exception \<open>e\<close>, which the second loop finds on
  the future, and let no other account of the batch share the id of \<open>a\<close>. Then the result
  has no key for \<open>a\<close>, the error is logged, and \<open>e\<close> is not an \<^verbatim>\<open>Exception\<close>, since those
  are caught per region. Every other account whose task returned keeps its entry, and in
  that entry a region whose operation raised holds the marker \<^verbatim>\<open>False\<close>: a caught failure
  is recorded, an escaped one drops the account.
\<close>

theorem process_account_set_task_error:
  assumes run: "process_account_set sts fmt op as_completed flt mgr resources w = (Inr results, mgr', w')"
    and perm: "\<forall>fs. mset (as_completed fs) = mset fs"
    and role: "account_config mgr ''org-account-role'' = Some role"
    and a: "a \<in> set resources"
    and arn: "resolve_role fmt role a = Inr arn" and s: "org_accounts w' arn = Some s"
    and esc: "process_account flt op a s = Inl e"
    and uniq: "\<forall>b\<in>set resources. account_Id b = account_Id a \<longrightarrow> b = a"
  shows "results (account_Id a) = None \<and>
         AccountError (account_Name a) (account_Id a) e \<in> set (error_log w') \<and>
         \<not> is_Exception e \<and>
         (\<forall>b\<in>set resources. \<forall>arn' s' m.
            account_Id b \<noteq> account_Id a \<and> resolve_role fmt role b = Inr arn' \<and>
            org_accounts w' arn' = Some s' \<and> process_account flt op b s' = Inr m \<and>
            (\<forall>c\<in>set resources. account_Id c = account_Id b \<longrightarrow> c = b) \<longrightarrow>
              results (account_Id b) = Some m \<and>
              (\<forall>r\<in>set (resolve_regions flt b s'). \<forall>e'. op b r s' = Inl e' \<longrightarrow>
                 m r = Some (PyBool False)))"
proof (intro conjI ballI allI impI)
  show "results (account_Id a) = None"
  proof (rule ccontr)
    assume "results (account_Id a) \<noteq> None"
    then obtain m where "results (account_Id a) = Some m" by auto
    from batch_entry[OF run perm this] role uniq obtain arn' s' where
      "resolve_role fmt role a = Inr arn'" "org_accounts w' arn' = Some s'"
      "process_account flt op a s' = Inr m"
      by auto
    with arn s esc show False by simp
  qed
  show "AccountError (account_Name a) (account_Id a) e \<in> set (error_log w')"
    by (rule batch_task_error_logged[OF run perm a role arn s esc])
  from process_regions_Inl[OF esc[unfolded process_account_def]]
  show "\<not> is_Exception e" by simp
next
  fix b arn' s' m
  assume b: "b \<in> set resources"
    and h: "account_Id b \<noteq> account_Id a \<and> resolve_role fmt role b = Inr arn' \<and>
            org_accounts w' arn' = Some s' \<and> process_account flt op b s' = Inr m \<and>
            (\<forall>c\<in>set resources. account_Id c = account_Id b \<longrightarrow> c = b)"
  then have arn': "resolve_role fmt role b = Inr arn'" and s': "org_accounts w' arn' = Some s'"
    and m: "process_account flt op b s' = Inr m"
    and uniq': "\<forall>c\<in>set resources. account_Id c = account_Id b \<longrightarrow> c = b"
    by simp_all
  from batch_present[OF run perm b role arn' s' m] obtain m' where
    m': "results (account_Id b) = Some m'"
    by auto
  from batch_entry[OF run perm this] role uniq' obtain arn2 s2 where
    "resolve_role fmt role b = Inr arn2" "org_accounts w' arn2 = Some s2"
    "process_account flt op b s2 = Inr m'"
    by auto
  with arn' s' m have "m' = m" by simp
  with m' show "results (account_Id b) = Some m" by simp
  fix r e'
  assume "r \<in> set (resolve_regions flt b s')" "op b r s' = Inl e'"
  with process_account_Inr[OF m] show "m r = Some (PyBool False)"
    by (simp add: unit_results_def)
qed

theorem process_account_set_task_error_witness:
  "process_account_set example_provider plain_format example_op rev example_regions
     example_manager [T3, T2] example_world =
   (Inr [''222222222222'' \<mapsto> [''east'' \<mapsto> PyBool False, ''west'' \<mapsto> PyStr ''ok'']],
    example_manager\<lparr>org_session := Some example_org_handle\<rparr>, example_world_dropped) \<and>
   process_account example_regions example_op T3 handle_T3 = Inl KeyboardInterrupt \<and>
   example_op T3 ''east'' handle_T3 = Inl RuntimeError \<and>
   [''222222222222'' \<mapsto> [''east'' \<mapsto> PyBool False, ''west'' \<mapsto> PyStr ''ok'']]
     (account_Id T3) = None \<and>
   AccountError (account_Name T3) (account_Id T3) KeyboardInterrupt
     \<in> set (error_log example_world_dropped) \<and>
   \<not> is_Exception KeyboardInterrupt \<and>
   [''222222222222'' \<mapsto> [''east'' \<mapsto> PyBool False, ''west'' \<mapsto> PyStr ''ok'']]
     (account_Id T2) = Some [''east'' \<mapsto> PyBool False, ''west'' \<mapsto> PyStr ''ok''] \<and>
   example_op T2 ''east'' handle_T2 = Inl RuntimeError \<and>
   [''east'' \<mapsto> PyBool False, ''west'' \<mapsto> PyStr ''ok''] ''east'' = Some (PyBool False)"
proof -
  let ?M = "[''east'' \<mapsto> PyBool False, ''west'' \<mapsto> PyStr ''ok'']"
  let ?R = "[''222222222222'' \<mapsto> ?M]"
  let ?role = "''OrganizationAccountAccessRole''"
  have perm: "\<forall>fs :: future list. mset (rev fs) = mset fs"
    by simp
  have role: "account_config example_manager ''org-account-role'' = Some ?role"
    by (simp add: example_manager_eq)
  have arn3: "resolve_role plain_format ?role T3 =
      Inr ''arn:aws:iam::333333333333:role/OrganizationAccountAccessRole''"
    and arn2: "resolve_role plain_format ?role T2 =
      Inr ''arn:aws:iam::222222222222:role/OrganizationAccountAccessRole''"
    by (simp_all add: resolve_role_def startswith_def T3_def T2_def)
  have s3: "org_accounts example_world_dropped
      ''arn:aws:iam::333333333333:role/OrganizationAccountAccessRole'' = Some handle_T3"
    and s2: "org_accounts example_world_dropped
      ''arn:aws:iam::222222222222:role/OrganizationAccountAccessRole'' = Some handle_T2"
    by (simp_all add: example_world_dropped_def)
  have esc: "process_account example_regions example_op T3 handle_T3 = Inl KeyboardInterrupt"
    by (simp add: process_account_def resolve_regions_def example_regions_def example_op_def
        T3_def)
  have uniq3: "\<forall>b\<in>set [T3, T2]. account_Id b = account_Id T3 \<longrightarrow> b = T3"
    and uniq2: "\<forall>c\<in>set [T3, T2]. account_Id c = account_Id T2 \<longrightarrow> c = T2"
    and ne: "account_Id T2 \<noteq> account_Id T3"
    by (simp_all add: T3_def T2_def)
  have ops: "example_op T3 ''east'' handle_T3 = Inl RuntimeError"
    "example_op T2 ''east'' handle_T2 = Inl RuntimeError"
    "''east'' \<in> set (resolve_regions example_regions T2 handle_T2)"
    by (simp_all add: example_op_def resolve_regions_def example_regions_def)
  note te = process_account_set_task_error[OF example_batch_dropped perm role _ arn3 s3 esc uniq3]
  have t3: "T3 \<in> set [T3, T2]" and t2: "T2 \<in> set [T3, T2]"
    by simp_all
  from te[OF t3] have d: "?R (account_Id T3) = None"
    "AccountError (account_Name T3) (account_Id T3) KeyboardInterrupt
       \<in> set (error_log example_world_dropped)"
    "\<not> is_Exception KeyboardInterrupt"
    by blast+
  from te[OF t3] t2 ne arn2 s2 example_process_account uniq2
  have k: "?R (account_Id T2) = Some ?M \<and>
      (\<forall>r\<in>set (resolve_regions example_regions T2 handle_T2).
         \<forall>e'. example_op T2 r handle_T2 = Inl e' \<longrightarrow> ?M r = Some (PyBool False))"
    by blast
  with ops have k2: "?M ''east'' = Some (PyBool False)"
    by blast
  show ?thesis
    using example_batch_dropped esc ops(1,2) d k k2 by blast
qed

end
